theory Spec2Isabelle
  imports Main
begin

section \<open>JSON values and the JavaScript operators applied to them\<close>

text \<open>
  The client (\<^verbatim>\<open>src/frontend/script.js\<close>) handles values produced by
  \<^verbatim>\<open>response.json()\<close> and object literals of its own. A number is kept as its
  canonical decimal rendering (\<^verbatim>\<open>String(n)\<close>), which is all the script ever
  uses of it: its truthiness (\<^verbatim>\<open>"0"\<close> is the only falsy rendering of a finite
  number) and its text. An object is the list of its own properties.
\<close>

datatype jsval =
    JUndefined
  | JNull
  | JBool bool
  | JNum string
  | JStr string
  | JArr "jsval list"
  | JObj "(string \<times> jsval) list"

text \<open>A thrown value: the \<^verbatim>\<open>name\<close> and \<^verbatim>\<open>message\<close> of an Error object.
  The message of an error raised by the engine itself is engine specific; the model fixes
  one wording for each. The script only asks whether a message contains
  \<^verbatim>\<open>NetworkError\<close> or \<^verbatim>\<open>Failed to fetch\<close>, which no engine's wording
  of these errors does.\<close>

datatype exn = Exn (exn_name: string) (exn_message: string)

fun truthy :: "jsval \<Rightarrow> bool" where
  "truthy JUndefined = False"
| "truthy JNull = False"
| "truthy (JBool b) = b"
| "truthy (JNum n) = (n \<noteq> ''0'')"
| "truthy (JStr s) = (s \<noteq> [])"
| "truthy (JArr xs) = True"
| "truthy (JObj kvs) = True"

text \<open>\<^verbatim>\<open>a || b\<close>\<close>

definition js_or :: "jsval \<Rightarrow> jsval \<Rightarrow> jsval" where
  "js_or a b = (if truthy a then a else b)"

text \<open>\<^verbatim>\<open>v.k\<close> on a value that is neither \<^verbatim>\<open>null\<close> nor \<^verbatim>\<open>undefined\<close>,
  for the property names the script reads (\<^verbatim>\<open>response\<close>, \<^verbatim>\<open>action\<close>,
  \<^verbatim>\<open>data\<close>, \<^verbatim>\<open>options\<close>, \<^verbatim>\<open>doctors\<close>, \<^verbatim>\<open>available_dates\<close>,
  \<^verbatim>\<open>available_slots\<close>, \<^verbatim>\<open>text\<close>, \<^verbatim>\<open>value\<close>): none of them is
  inherited from a prototype, so a primitive or an array has none of them.\<close>

fun field :: "jsval \<Rightarrow> string \<Rightarrow> jsval" where
  "field (JObj kvs) k = (case map_of kvs k of Some v \<Rightarrow> v | None \<Rightarrow> JUndefined)"
| "field v k = JUndefined"

text \<open>\<^verbatim>\<open>v.k\<close> in general: reading a property of \<^verbatim>\<open>null\<close> or
  \<^verbatim>\<open>undefined\<close> throws a TypeError.\<close>

definition js_get :: "jsval \<Rightarrow> string \<Rightarrow> exn + jsval" where
  "js_get v k =
     (if v = JNull then Inl (Exn ''TypeError'' ''Cannot read properties of null'')
      else if v = JUndefined then Inl (Exn ''TypeError'' ''Cannot read properties of undefined'')
      else Inr (field v k))"

text \<open>\<^verbatim>\<open>Array.isArray(v)\<close>\<close>

fun isArray :: "jsval \<Rightarrow> bool" where
  "isArray (JArr xs) = True"
| "isArray v = False"

text \<open>\<^verbatim>\<open>s.includes(sub)\<close> on strings.\<close>

fun starts_with :: "string \<Rightarrow> string \<Rightarrow> bool" where
  "starts_with s [] = True"
| "starts_with [] (c # cs) = False"
| "starts_with (d # ds) (c # cs) = (d = c \<and> starts_with ds cs)"

fun str_includes :: "string \<Rightarrow> string \<Rightarrow> bool" where
  "str_includes [] sub = (sub = [])"
| "str_includes (d # ds) sub = (starts_with (d # ds) sub \<or> str_includes ds sub)"

text \<open>
  The string a value is converted to (\<^verbatim>\<open>ToString\<close>). An array joins the texts of
  its elements with commas, \<^verbatim>\<open>null\<close> and \<^verbatim>\<open>undefined\<close> elements giving the
  empty text. A plain object gives \<^verbatim>\<open>[object Object]\<close>, unless it has an own
  property \<^verbatim>\<open>toString\<close>: a parsed value is never callable, so the conversion then
  finds no usable method and throws a TypeError.
\<close>

fun js_toString :: "jsval \<Rightarrow> exn + string"
  and js_join :: "jsval list \<Rightarrow> exn + string" where
  "js_toString JUndefined = Inr ''undefined''"
| "js_toString JNull = Inr ''null''"
| "js_toString (JBool b) = Inr (if b then ''true'' else ''false'')"
| "js_toString (JNum n) = Inr n"
| "js_toString (JStr s) = Inr s"
| "js_toString (JArr xs) = js_join xs"
| "js_toString (JObj kvs) =
     (if map_of kvs ''toString'' = None then Inr ''[object Object]''
      else Inl (Exn ''TypeError'' ''Cannot convert object to primitive value''))"
| "js_join [] = Inr []"
| "js_join (x # xs) =
     (case (if x = JNull \<or> x = JUndefined then Inr [] else js_toString x) of
        Inl e \<Rightarrow> Inl e
      | Inr a \<Rightarrow>
          (if xs = [] then Inr a
           else (case js_join xs of Inl e \<Rightarrow> Inl e | Inr b \<Rightarrow> Inr (a @ '','' @ b))))"

text \<open>Assigning \<^verbatim>\<open>element.textContent = v\<close>: the attribute is a nullable string, so
  \<^verbatim>\<open>null\<close> and \<^verbatim>\<open>undefined\<close> give the empty text and every other value
  is converted to a string.\<close>

definition textContent_of :: "jsval \<Rightarrow> exn + string" where
  "textContent_of v = (if v = JNull \<or> v = JUndefined then Inr [] else js_toString v)"

section \<open>The page: transcript, controls and requests in flight\<close>

text \<open>
  A click listener registered on an option button: the closure of
  \<^verbatim>\<open>addOptionsToChat\<close>, which captures the \<^verbatim>\<open>option\<close> it was made for, or
  the restart closure that \<^verbatim>\<open>handleAction\<close> registers after
  \<^verbatim>\<open>conversation_end\<close>.
\<close>

datatype listener = OptionSend jsval | Restart

record button =
  btn_text :: string
  btn_disabled :: bool
  btn_selected :: bool
  btn_listeners :: "listener list"

text \<open>The children of \<^verbatim>\<open>chatMessages\<close>. A typing indicator carries the number of
  the call that created it, since the script later removes that very element.\<close>

datatype node =
    BotMessage string
  | UserMessage string
  | TypingIndicator nat
  | OptionsContainer "button list"
  | ErrorNotice string

text \<open>A call of \<^verbatim>\<open>sendMessage\<close> suspended at one of its two \<^verbatim>\<open>await\<close>s.\<close>

datatype stage = AwaitFetch | AwaitJson

record request =
  req_id :: nat
  req_message :: jsval
  req_user_data :: jsval
  req_stage :: stage
  req_bootstrap :: bool

record state =
  userData :: jsval
  chatMessages :: "node list"
  userInput_disabled :: bool
  sendButton_disabled :: bool
  pending :: "request list"
  next_id :: nat

text \<open>The page as loaded: \<^verbatim>\<open>let userData = { state: null }\<close>, an empty transcript,
  nothing in flight, and both controls enabled (the markup is not among the sources; the
  script never enables a control it has not disabled before).\<close>

definition initial_userData :: jsval where
  "initial_userData = JObj [(''state'', JNull)]"

definition init :: state where
  "init = \<lparr>userData = initial_userData, chatMessages = [], userInput_disabled = False,
            sendButton_disabled = False, pending = [], next_id = 0\<rparr>"

definition appendChild :: "node \<Rightarrow> state \<Rightarrow> state" where
  "appendChild n s = s\<lparr>chatMessages := chatMessages s @ [n]\<rparr>"

definition addBotMessage :: "jsval \<Rightarrow> state \<Rightarrow> exn + state" where
  "addBotMessage message s =
     (case textContent_of message of
        Inl e \<Rightarrow> Inl e
      | Inr t \<Rightarrow> Inr (appendChild (BotMessage t) s))"

definition addUserMessage :: "jsval \<Rightarrow> state \<Rightarrow> exn + state" where
  "addUserMessage message s =
     (case textContent_of message of
        Inl e \<Rightarrow> Inl e
      | Inr t \<Rightarrow> Inr (appendChild (UserMessage t) s))"

subsection \<open>addOptionsToChat\<close>

text \<open>The body of the \<^verbatim>\<open>forEach\<close> callback: one button per entry, its text
  \<^verbatim>\<open>option.text || option\<close>, its click listener capturing the entry.\<close>

definition make_button :: "jsval \<Rightarrow> exn + button" where
  "make_button opt =
     (case js_get opt ''text'' of
        Inl e \<Rightarrow> Inl e
      | Inr t \<Rightarrow>
          (case textContent_of (js_or t opt) of
             Inl e \<Rightarrow> Inl e
           | Inr txt \<Rightarrow>
               Inr \<lparr>btn_text = txt, btn_disabled = False, btn_selected = False,
                    btn_listeners = [OptionSend opt]\<rparr>))"

fun make_buttons :: "jsval list \<Rightarrow> exn + button list" where
  "make_buttons [] = Inr []"
| "make_buttons (x # xs) =
     (case make_button x of
        Inl e \<Rightarrow> Inl e
      | Inr b \<Rightarrow> (case make_buttons xs of Inl e \<Rightarrow> Inl e | Inr bs \<Rightarrow> Inr (b # bs)))"

text \<open>The container is attached to the transcript only after the loop, so a throw inside
  the loop leaves the page as it was. A value without a \<^verbatim>\<open>forEach\<close> method makes
  the call itself throw.\<close>

fun addOptionsToChat :: "jsval \<Rightarrow> state \<Rightarrow> exn + state" where
  "addOptionsToChat (JArr xs) s =
     (case make_buttons xs of
        Inl e \<Rightarrow> Inl e
      | Inr bs \<Rightarrow> Inr (appendChild (OptionsContainer bs) s))"
| "addOptionsToChat JNull s = Inl (Exn ''TypeError'' ''Cannot read properties of null'')"
| "addOptionsToChat JUndefined s =
     Inl (Exn ''TypeError'' ''Cannot read properties of undefined'')"
| "addOptionsToChat v s = Inl (Exn ''TypeError'' ''options.forEach is not a function'')"

subsection \<open>handleAction\<close>

text \<open>\<^verbatim>\<open>restartButtons[restartButtons.length - 1].addEventListener('click', ...)\<close>:
  the last option button of the document gets one more listener. The function walks the
  transcript from its end.\<close>

fun attach_rev :: "listener \<Rightarrow> node list \<Rightarrow> node list" where
  "attach_rev l [] = []"
| "attach_rev l (OptionsContainer bs # ns) =
     (if bs = [] then OptionsContainer bs # attach_rev l ns
      else OptionsContainer
             (butlast bs @ [(last bs)\<lparr>btn_listeners := btn_listeners (last bs) @ [l]\<rparr>]) # ns)"
| "attach_rev l (n # ns) = n # attach_rev l ns"

definition attach_last_button :: "listener \<Rightarrow> state \<Rightarrow> state" where
  "attach_last_button l s = s\<lparr>chatMessages := rev (attach_rev l (rev (chatMessages s)))\<rparr>"

definition yes_no :: jsval where
  "yes_no = JArr [JObj [(''text'', JStr ''Yes''), (''value'', JStr ''Yes'')],
                  JObj [(''text'', JStr ''No''), (''value'', JStr ''No'')]]"

definition cancel_or_book :: jsval where
  "cancel_or_book =
     JArr [JObj [(''text'', JStr ''Cancel Appointment''), (''value'', JStr ''cancel'')],
           JObj [(''text'', JStr ''Book New Appointment''),
                 (''value'', JStr ''book new appointment'')]]"

definition cancel_or_keep :: jsval where
  "cancel_or_keep = JArr [JObj [(''text'', JStr ''Yes, Cancel''), (''value'', JStr ''yes'')],
                          JObj [(''text'', JStr ''No, Keep''), (''value'', JStr ''no'')]]"

definition departments :: jsval where
  "departments = JArr [JStr ''Cardiology'', JStr ''Neurology'', JStr ''General Physician'']"

definition restartOptions :: jsval where
  "restartOptions =
     JArr [JObj [(''text'', JStr ''Start New Conversation''), (''value'', JStr ''Hello'')]]"

text \<open>A result \<open>Inl e\<close> is a throw out of \<^verbatim>\<open>handleAction\<close>; the page is then as
  it was at the call, since the only calls that can throw are the calls of
  \<^verbatim>\<open>addOptionsToChat\<close> on a value taken from the response, made before anything
  else is changed.\<close>

definition handleAction :: "jsval \<Rightarrow> jsval \<Rightarrow> state \<Rightarrow> exn + state" where
  "handleAction action data s =
     (if action = JStr ''offer_booking'' then addOptionsToChat yes_no s
      else if action = JStr ''show_existing_appointment'' then addOptionsToChat cancel_or_book s
      else if action = JStr ''confirm_cancellation'' then addOptionsToChat cancel_or_keep s
      else if action = JStr ''show_options'' \<and> truthy data \<and> truthy (field data ''options'')
        then addOptionsToChat (field data ''options'') s
      else if action = JStr ''request_department'' then addOptionsToChat departments s
      else if action = JStr ''request_doctor'' then
        (if truthy data \<and> truthy (field data ''doctors'') \<and> isArray (field data ''doctors'')
         then addOptionsToChat (field data ''doctors'') s
         else Inr (appendChild
                (ErrorNotice ''Error: No department specified. Please type your selection.'') s))
      else if action = JStr ''request_date'' \<and> truthy data \<and> truthy (field data ''available_dates'')
        then addOptionsToChat (field data ''available_dates'') s
      else if action = JStr ''request_time'' \<and> truthy data \<and> truthy (field data ''available_slots'')
        then addOptionsToChat (field data ''available_slots'') s
      else if action = JStr ''show_appointments'' then addOptionsToChat cancel_or_book s
      else if action = JStr ''conversation_end'' then
        (case addOptionsToChat restartOptions
                (s\<lparr>userInput_disabled := True, sendButton_disabled := True\<rparr>) of
           Inl e \<Rightarrow> Inl e
         | Inr s' \<Rightarrow> Inr (attach_last_button Restart s'))
      else Inr s)"

subsection \<open>sendMessage\<close>

text \<open>\<^verbatim>\<open>addBotMessage\<close> on a string literal of the script.\<close>

definition addBotText :: "string \<Rightarrow> state \<Rightarrow> state" where
  "addBotText t s = appendChild (BotMessage t) s"

text \<open>\<^verbatim>\<open>document.querySelector('.typing-indicator')\<close> finds the first indicator of
  the document, whichever call made it; the \<^verbatim>\<open>catch\<close> block removes that one.\<close>

fun remove_first_typing :: "node list \<Rightarrow> node list" where
  "remove_first_typing [] = []"
| "remove_first_typing (TypingIndicator k # ns) = ns"
| "remove_first_typing (n # ns) = n # remove_first_typing ns"

definition diagnostic :: "exn \<Rightarrow> string" where
  "diagnostic error =
     (if exn_name error = ''AbortError'' then
        ''The server is taking too long to respond. Please check if the backend is running properly.''
      else if str_includes (exn_message error) ''NetworkError''
              \<or> str_includes (exn_message error) ''Failed to fetch'' then
        ''Cannot connect to the server. Please make sure the backend is running at http://localhost:8000''
      else ''Sorry, there was an error processing your request.'')"

definition sendMessage_catch :: "exn \<Rightarrow> state \<Rightarrow> state" where
  "sendMessage_catch error s =
     addBotText (diagnostic error) (s\<lparr>chatMessages := remove_first_typing (chatMessages s)\<rparr>)"

text \<open>\<^verbatim>\<open>chatMessages.removeChild(typingIndicator)\<close> in the \<^verbatim>\<open>try\<close> block removes
  the call's own indicator, and throws when that element is no longer a child.\<close>

definition removeIndicator :: "nat \<Rightarrow> state \<Rightarrow> exn + state" where
  "removeIndicator k s =
     (if TypingIndicator k \<in> set (chatMessages s)
      then Inr (s\<lparr>chatMessages := remove1 (TypingIndicator k) (chatMessages s)\<rparr>)
      else Inl (Exn ''NotFoundError'' ''The node to be removed is not a child of this node''))"

fun disable_node :: "node \<Rightarrow> node" where
  "disable_node (OptionsContainer bs) = OptionsContainer (map (\<lambda>b. b\<lparr>btn_disabled := True\<rparr>) bs)"
| "disable_node n = n"

text \<open>
  \<^verbatim>\<open>sendMessage\<close> up to its first \<^verbatim>\<open>await\<close>: the echo, the disabling of every
  option button, the request built from the current \<^verbatim>\<open>userData\<close> (serialised at
  once by \<^verbatim>\<open>JSON.stringify\<close>), the typing indicator, and the \<^verbatim>\<open>fetch\<close>. The
  flag tells whether the caller is \<^verbatim>\<open>checkBackendConnection\<close>, which awaits the
  call; every other caller drops the promise.
\<close>

definition sendMessage_begin :: "bool \<Rightarrow> jsval \<Rightarrow> state \<Rightarrow> state" where
  "sendMessage_begin awaited message s =
     (case (if message \<noteq> JStr ''Hello'' then addUserMessage message s else Inr s) of
        Inl e \<Rightarrow> sendMessage_catch e s
      | Inr s1 \<Rightarrow>
          s1\<lparr>chatMessages := map disable_node (chatMessages s1) @ [TypingIndicator (next_id s1)],
             pending := pending s1 @
               [\<lparr>req_id = next_id s1, req_message = message, req_user_data = userData s1,
                 req_stage = AwaitFetch, req_bootstrap = awaited\<rparr>],
             next_id := Suc (next_id s1)\<rparr>)"

definition sendMessage :: "jsval \<Rightarrow> state \<Rightarrow> state" where
  "sendMessage message s = sendMessage_begin False message s"

text \<open>How the \<^verbatim>\<open>fetch\<close> settles: rejected (timeout, network), or a response with its
  \<^verbatim>\<open>ok\<close> flag and its status in decimal.\<close>

datatype fetch_result = FetchRejected exn | FetchResponse bool string

text \<open>How \<^verbatim>\<open>response.json()\<close> settles.\<close>

datatype json_result = JsonRejected exn | JsonValue jsval

text \<open>From the first \<^verbatim>\<open>await\<close> to the second. The flag returned tells whether the
  call goes on to await the body.\<close>

definition sendMessage_fetched :: "nat \<Rightarrow> fetch_result \<Rightarrow> state \<Rightarrow> state \<times> bool" where
  "sendMessage_fetched k r s =
     (case r of
        FetchRejected e \<Rightarrow> (sendMessage_catch e s, False)
      | FetchResponse ok status \<Rightarrow>
          (case removeIndicator k s of
             Inl e \<Rightarrow> (sendMessage_catch e s, False)
           | Inr s1 \<Rightarrow>
               if \<not> ok
               then (sendMessage_catch (Exn ''Error'' (''HTTP error! Status: '' @ status)) s1, False)
               else (s1, True)))"

text \<open>The rest of the \<^verbatim>\<open>try\<close> block once the body is parsed. A throw comes with the
  page as the statements before it left it.\<close>

definition sendMessage_body :: "jsval \<Rightarrow> state \<Rightarrow> (exn \<times> state) + state" where
  "sendMessage_body data s =
     (case js_get data ''response'' of
        Inl e \<Rightarrow> Inl (e, s)
      | Inr r \<Rightarrow>
          (case addBotMessage r s of
             Inl e \<Rightarrow> Inl (e, s)
           | Inr s1 \<Rightarrow>
               (let s2 = s1\<lparr>userData := js_or (field data ''data'') (JObj [])\<rparr> in
                case handleAction (field data ''action'') (field data ''data'') s2 of
                  Inl e \<Rightarrow> Inl (e, s2)
                | Inr s3 \<Rightarrow> Inr s3)))"

definition sendMessage_parsed :: "json_result \<Rightarrow> state \<Rightarrow> state" where
  "sendMessage_parsed r s =
     (case r of
        JsonRejected e \<Rightarrow> sendMessage_catch e s
      | JsonValue data \<Rightarrow>
          (case sendMessage_body data s of
             Inl (e, s') \<Rightarrow> sendMessage_catch e s'
           | Inr s' \<Rightarrow> s'))"

subsection \<open>initChat and checkBackendConnection\<close>

definition loadingMsg :: string where
  "loadingMsg = ''Connecting to server...''"

fun is_bot_message :: "node \<Rightarrow> bool" where
  "is_bot_message (BotMessage t) = True"
| "is_bot_message (TypingIndicator k) = True"
| "is_bot_message n = False"

fun node_text :: "node \<Rightarrow> string" where
  "node_text (BotMessage t) = t"
| "node_text (UserMessage t) = t"
| "node_text (TypingIndicator k) = ''Typing...''"
| "node_text (ErrorNotice t) = t"
| "node_text (OptionsContainer bs) = concat (map btn_text bs)"

definition bot_positions :: "node list \<Rightarrow> nat list" where
  "bot_positions ns = filter (\<lambda>i. is_bot_message (ns ! i)) [0..<length ns]"

definition remove_nth :: "nat \<Rightarrow> 'a list \<Rightarrow> 'a list" where
  "remove_nth i xs = take i xs @ drop (Suc i) xs"

text \<open>\<^verbatim>\<open>checkBackendConnection\<close> after \<^verbatim>\<open>await sendMessage("Hello")\<close>: the
  element before the last of class \<^verbatim>\<open>bot-message\<close> is removed when its text is the
  loading message. \<^verbatim>\<open>sendMessage\<close> catches every exception itself, so the
  \<^verbatim>\<open>catch\<close> block of \<^verbatim>\<open>checkBackendConnection\<close> is never entered.\<close>

definition checkBackendConnection_resume :: "state \<Rightarrow> state" where
  "checkBackendConnection_resume s =
     (let ns = chatMessages s; ps = bot_positions ns in
      if length ps > 1 \<and> node_text (ns ! (ps ! (length ps - 2))) = loadingMsg
      then s\<lparr>chatMessages := remove_nth (ps ! (length ps - 2)) ns\<rparr>
      else s)"

definition checkBackendConnection :: "state \<Rightarrow> state" where
  "checkBackendConnection s = sendMessage_begin True (JStr ''Hello'') (addBotText loadingMsg s)"

definition welcomeMsg :: string where
  "welcomeMsg = ''Welcome to the Medical Appointment Booking System!''"

definition initChat :: "state \<Rightarrow> state" where
  "initChat s = checkBackendConnection (addBotText welcomeMsg s)"

subsection \<open>Events\<close>

text \<open>
  What can happen to the page: it loads; the send button is clicked or Enter is pressed in
  the input, the input then holding a text whose \<^verbatim>\<open>trim()\<close> is the string given; the
  option button \<open>j\<close> of the transcript's child \<open>i\<close> is clicked; the \<^verbatim>\<open>fetch\<close> of a
  call settles; the body of a call settles. A disabled control receives no click and no
  key press.
\<close>

datatype event =
    Load
  | SendClick string
  | EnterKey string
  | OptionClick nat nat
  | FetchSettled nat fetch_result
  | JsonSettled nat json_result

text \<open>The highlighting done by an option listener: within the button's container, every
  button loses the class \<^verbatim>\<open>selected\<close> and the clicked one gets it.\<close>

definition select_button :: "nat \<Rightarrow> nat \<Rightarrow> state \<Rightarrow> state" where
  "select_button i j s =
     (if i < length (chatMessages s) then
        (case chatMessages s ! i of
           OptionsContainer bs \<Rightarrow>
             if j < length bs then
               s\<lparr>chatMessages := (chatMessages s)
                   [i := OptionsContainer
                      ((map (\<lambda>b. b\<lparr>btn_selected := False\<rparr>) bs)
                         [j := (bs ! j)\<lparr>btn_selected := True\<rparr>])]\<rparr>
             else s
         | _ \<Rightarrow> s)
      else s)"

text \<open>\<^verbatim>\<open>const value = option.value || option\<close>\<close>

definition option_value :: "jsval \<Rightarrow> exn + jsval" where
  "option_value opt =
     (case js_get opt ''value'' of Inl e \<Rightarrow> Inl e | Inr v \<Rightarrow> Inr (js_or v opt))"

text \<open>One click listener of the button at \<open>(i, j)\<close>. An exception thrown by a listener is
  reported and the next listener still runs.\<close>

fun run_listener :: "nat \<Rightarrow> nat \<Rightarrow> listener \<Rightarrow> state \<Rightarrow> state" where
  "run_listener i j (OptionSend opt) s =
     (let s1 = select_button i j s in
      case option_value opt of
        Inl e \<Rightarrow> s1
      | Inr v \<Rightarrow> sendMessage v s1)"
| "run_listener i j Restart s =
     s\<lparr>userData := JObj [(''state'', JNull)], userInput_disabled := False,
       sendButton_disabled := False\<rparr>"

fun dispatch :: "nat \<Rightarrow> nat \<Rightarrow> listener list \<Rightarrow> state \<Rightarrow> state" where
  "dispatch i j [] s = s"
| "dispatch i j (l # ls) s = dispatch i j ls (run_listener i j l s)"

definition click_option :: "nat \<Rightarrow> nat \<Rightarrow> state \<Rightarrow> state" where
  "click_option i j s =
     (if i < length (chatMessages s) then
        (case chatMessages s ! i of
           OptionsContainer bs \<Rightarrow>
             if j < length bs \<and> \<not> btn_disabled (bs ! j)
             then dispatch i j (btn_listeners (bs ! j)) s
             else s
         | _ \<Rightarrow> s)
      else s)"

definition finish :: "request \<Rightarrow> state \<Rightarrow> state" where
  "finish rq s = (if req_bootstrap rq then checkBackendConnection_resume s else s)"

definition settle_fetch :: "nat \<Rightarrow> fetch_result \<Rightarrow> state \<Rightarrow> state" where
  "settle_fetch k r s =
     (case find (\<lambda>q. req_id q = k \<and> req_stage q = AwaitFetch) (pending s) of
        None \<Rightarrow> s
      | Some rq \<Rightarrow>
          (case sendMessage_fetched k r s of
             (s', True) \<Rightarrow>
               s'\<lparr>pending := map (\<lambda>q. if req_id q = k then q\<lparr>req_stage := AwaitJson\<rparr> else q)
                                 (pending s')\<rparr>
           | (s', False) \<Rightarrow>
               finish rq (s'\<lparr>pending := filter (\<lambda>q. req_id q \<noteq> k) (pending s')\<rparr>)))"

definition settle_json :: "nat \<Rightarrow> json_result \<Rightarrow> state \<Rightarrow> state" where
  "settle_json k r s =
     (case find (\<lambda>q. req_id q = k \<and> req_stage q = AwaitJson) (pending s) of
        None \<Rightarrow> s
      | Some rq \<Rightarrow>
          finish rq (sendMessage_parsed r (s\<lparr>pending := filter (\<lambda>q. req_id q \<noteq> k) (pending s)\<rparr>)))"

fun step :: "event \<Rightarrow> state \<Rightarrow> state" where
  "step Load s = initChat s"
| "step (SendClick message) s =
     (if \<not> sendButton_disabled s \<and> message \<noteq> [] then sendMessage (JStr message) s else s)"
| "step (EnterKey message) s =
     (if \<not> userInput_disabled s \<and> message \<noteq> [] then sendMessage (JStr message) s else s)"
| "step (OptionClick i j) s = click_option i j s"
| "step (FetchSettled k r) s = settle_fetch k r s"
| "step (JsonSettled k r) s = settle_json k r s"

fun run :: "event list \<Rightarrow> state \<Rightarrow> state" where
  "run [] s = s"
| "run (e # es) s = run es (step e s)"

section \<open>Vocabulary of the specification\<close>

text \<open>The action tags the specification lists as recognized.\<close>

definition recognized_tags :: "string list" where
  "recognized_tags =
     [''offer_booking'', ''show_existing_appointment'', ''show_appointments'',
      ''confirm_cancellation'', ''show_options'', ''request_department'', ''request_doctor'',
      ''request_date'', ''request_time'', ''conversation_end'']"

text \<open>The specification's coercion of an entry of \<^verbatim>\<open>options\<close>:
  \<^verbatim>\<open>{label: text ?? entry, value: value ?? entry}\<close>, with \<^verbatim>\<open>a ?? b\<close> being
  \<open>b\<close> exactly when \<open>a\<close> is \<^verbatim>\<open>null\<close> or \<^verbatim>\<open>undefined\<close>.\<close>

definition nullish_or :: "jsval \<Rightarrow> jsval \<Rightarrow> jsval" where
  "nullish_or a b = (if a = JNull \<or> a = JUndefined then b else a)"

definition spec_option :: "jsval \<Rightarrow> jsval \<times> jsval" where
  "spec_option entry =
     (nullish_or (field entry ''text'') entry, nullish_or (field entry ''value'') entry)"

text \<open>What a rendered button offers: its text, and the values its click listeners pass to
  \<^verbatim>\<open>sendMessage\<close>.\<close>

fun sent_by :: "listener \<Rightarrow> jsval list" where
  "sent_by (OptionSend opt) = (case option_value opt of Inl e \<Rightarrow> [] | Inr v \<Rightarrow> [v])"
| "sent_by Restart = []"

definition shown_option :: "button \<Rightarrow> (exn + string) \<times> jsval list" where
  "shown_option b = (Inr (btn_text b), concat (map sent_by (btn_listeners b)))"

text \<open>The specification's reading of \<^verbatim>\<open>show_options\<close> on an array: the dispatcher
  returns, and the container it appended shows one option per entry, with the text of the
  specification's label and the specification's value.\<close>

definition renders_per_spec :: "jsval list \<Rightarrow> state \<Rightarrow> bool" where
  "renders_per_spec xs s =
     (case handleAction (JStr ''show_options'') (JObj [(''options'', JArr xs)]) s of
        Inl e \<Rightarrow> False
      | Inr s' \<Rightarrow>
          (case rev (chatMessages s') of
             OptionsContainer bs # ns \<Rightarrow>
               map shown_option bs =
                 map (\<lambda>e. (textContent_of (fst (spec_option e)), [snd (spec_option e)])) xs
           | _ \<Rightarrow> False))"

text \<open>The restart option of the specification, and the page after
  \<^verbatim>\<open>conversation_end\<close>: both free-text controls disabled and one more container,
  holding the restart button.\<close>

definition restart_entry :: jsval where
  "restart_entry =
     JObj [(''text'', JStr ''Start New Conversation''), (''value'', JStr ''Hello'')]"

definition restart_button :: button where
  "restart_button =
     \<lparr>btn_text = ''Start New Conversation'', btn_disabled = False, btn_selected = False,
      btn_listeners = [OptionSend restart_entry, Restart]\<rparr>"

definition ended_page :: "state \<Rightarrow> state" where
  "ended_page s =
     s\<lparr>userInput_disabled := True, sendButton_disabled := True,
       chatMessages := chatMessages s @ [OptionsContainer [restart_button]]\<rparr>"

text \<open>A click that reaches a button carrying the restart listener.\<close>

definition is_restart_click :: "event \<Rightarrow> state \<Rightarrow> bool" where
  "is_restart_click e s =
     (case e of
        OptionClick i j \<Rightarrow>
          i < length (chatMessages s) \<and>
          (case chatMessages s ! i of
             OptionsContainer bs \<Rightarrow>
               j < length bs \<and> \<not> btn_disabled (bs ! j) \<and> Restart \<in> set (btn_listeners (bs ! j))
           | _ \<Rightarrow> False)
      | _ \<Rightarrow> False)"

text \<open>A turn whose transport call succeeds, with nothing else happening meanwhile: the
  message is sent, the response arrives with a success status, its body parses to the
  value given. A sequence of such turns.\<close>

definition turn :: "jsval \<times> string \<times> jsval \<Rightarrow> state \<Rightarrow> state" where
  "turn t s =
     (case t of
        (message, status, body) \<Rightarrow>
          run [FetchSettled (next_id s) (FetchResponse True status),
               JsonSettled (next_id s) (JsonValue body)]
            (sendMessage message s))"

fun turns :: "(jsval \<times> string \<times> jsval) list \<Rightarrow> state \<Rightarrow> state" where
  "turns [] s = s"
| "turns (t # ts) s = turns ts (turn t s)"

text \<open>The option buttons of the document.\<close>

fun buttons_of :: "node \<Rightarrow> button list" where
  "buttons_of (OptionsContainer bs) = bs"
| "buttons_of n = []"

definition all_buttons :: "node list \<Rightarrow> button list" where
  "all_buttons ns = concat (map buttons_of ns)"

text \<open>The place, in document order, of the button \<open>j\<close> of the transcript's child \<open>i\<close>
  among the option buttons of the document.\<close>

definition button_index :: "node list \<Rightarrow> nat \<Rightarrow> nat \<Rightarrow> nat" where
  "button_index ns i j = length (all_buttons (take i ns)) + j"












text \<open>The option buttons of the document in document order, each with what identifies it
  (its text and its listeners) and whether it is disabled.\<close>

definition node_profile :: "node \<Rightarrow> ((string \<times> listener list) \<times> bool) list" where
  "node_profile n = map (\<lambda>b. ((btn_text b, btn_listeners b), btn_disabled b)) (buttons_of n)"

definition profile :: "node list \<Rightarrow> ((string \<times> listener list) \<times> bool) list" where
  "profile ns = concat (map node_profile ns)"

text \<open>One profile continues another: every button is still there, at its place, and every
  button that was disabled still is.\<close>

definition continues ::
  "((string \<times> listener list) \<times> bool) list \<Rightarrow> ((string \<times> listener list) \<times> bool) list \<Rightarrow> bool" where
  "continues ps ps' =
     (length ps \<le> length ps' \<and>
      (\<forall>n<length ps. fst (ps' ! n) = fst (ps ! n) \<and> (snd (ps ! n) \<longrightarrow> snd (ps' ! n))))"

section \<open>Basic facts\<close>

lemma textContent_of_JStr [simp]: "textContent_of (JStr t) = Inr t"
  by (simp add: textContent_of_def)

lemma addUserMessage_JStr [simp]:
  "addUserMessage (JStr t) s = Inr (appendChild (UserMessage t) s)"
  by (simp add: addUserMessage_def)

lemma addBotMessage_JStr [simp]: "addBotMessage (JStr t) s = Inr (addBotText t s)"
  by (simp add: addBotMessage_def addBotText_def)

lemma appendChild_simps [simp]:
  "userData (appendChild n s) = userData s"
  "chatMessages (appendChild n s) = chatMessages s @ [n]"
  "userInput_disabled (appendChild n s) = userInput_disabled s"
  "sendButton_disabled (appendChild n s) = sendButton_disabled s"
  "pending (appendChild n s) = pending s"
  "next_id (appendChild n s) = next_id s"
  by (simp_all add: appendChild_def)

lemma addBotText_simps [simp]:
  "userData (addBotText t s) = userData s"
  "chatMessages (addBotText t s) = chatMessages s @ [BotMessage t]"
  "userInput_disabled (addBotText t s) = userInput_disabled s"
  "sendButton_disabled (addBotText t s) = sendButton_disabled s"
  "pending (addBotText t s) = pending s"
  "next_id (addBotText t s) = next_id s"
  by (simp_all add: addBotText_def)

lemma sendMessage_catch_simps [simp]:
  "userData (sendMessage_catch e s) = userData s"
  "chatMessages (sendMessage_catch e s) =
     remove_first_typing (chatMessages s) @ [BotMessage (diagnostic e)]"
  "userInput_disabled (sendMessage_catch e s) = userInput_disabled s"
  "sendButton_disabled (sendMessage_catch e s) = sendButton_disabled s"
  "pending (sendMessage_catch e s) = pending s"
  "next_id (sendMessage_catch e s) = next_id s"
  by (simp_all add: sendMessage_catch_def)

section \<open>The dispatcher\<close>

lemma make_button_literal:
  "make_button (JObj [(''text'', JStr t), (''value'', v)]) =
     Inr \<lparr>btn_text = (if t = [] then ''[object Object]'' else t), btn_disabled = False,
          btn_selected = False,
          btn_listeners = [OptionSend (JObj [(''text'', JStr t), (''value'', v)])]\<rparr>"
  by (simp add: make_button_def js_get_def js_or_def textContent_of_def)

lemma handleAction_conversation_end:
  "handleAction (JStr ''conversation_end'') data s = Inr (ended_page s)"
  by (simp add: handleAction_def restartOptions_def make_button_literal attach_last_button_def
      appendChild_def restart_button_def restart_entry_def ended_page_def)

lemma addOptionsToChat_Inr:
  "addOptionsToChat v s = Inr s' \<Longrightarrow> \<exists>bs. s' = appendChild (OptionsContainer bs) s"
  by (cases v) (auto split: sum.splits)

lemma addOptionsToChat_indep:
  "addOptionsToChat v s = Inr s' \<Longrightarrow> \<exists>t'. addOptionsToChat v t = Inr t'"
  by (cases v) (auto split: sum.splits)

lemma handleAction_Inr:
  assumes "handleAction a d s = Inr s'"
  shows "userData s' = userData s \<and> pending s' = pending s \<and> next_id s' = next_id s \<and>
    (\<exists>ns. chatMessages s' = chatMessages s @ ns \<and>
          (\<forall>n\<in>set ns. \<not> is_bot_message n \<and> (\<forall>t. n \<noteq> UserMessage t)))"
proof (cases "a = JStr ''conversation_end''")
  case True
  with assms show ?thesis
    by (auto simp: handleAction_conversation_end ended_page_def)
next
  case False
  with assms show ?thesis
    by (auto simp: handleAction_def split: if_splits dest!: addOptionsToChat_Inr)
qed

lemma handleAction_indep:
  assumes "handleAction a d s = Inr s'"
  shows "\<exists>t'. handleAction a d t = Inr t'"
proof (cases "a = JStr ''conversation_end''")
  case True
  then show ?thesis by (simp add: handleAction_conversation_end)
next
  case False
  with assms show ?thesis
    by (auto simp: handleAction_def split: if_splits dest: addOptionsToChat_indep)
qed

lemma truthy_field: "field v k = JArr xs \<Longrightarrow> truthy v"
  by (cases v) simp_all

lemma make_buttons_map:
  assumes "\<forall>e\<in>set xs. e \<noteq> JNull \<and> e \<noteq> JUndefined \<and>
             textContent_of (js_or (field e ''text'') e) = Inr (label e)"
  shows "make_buttons xs =
           Inr (map (\<lambda>e. \<lparr>btn_text = label e, btn_disabled = False, btn_selected = False,
                          btn_listeners = [OptionSend e]\<rparr>) xs)"
  using assms by (induction xs) (simp_all add: make_button_def js_get_def)

lemma renders_per_spec_strings: "renders_per_spec [JStr ''A'', JStr ''B''] init"
  by (simp add: renders_per_spec_def handleAction_def make_button_def js_get_def js_or_def
      shown_option_def option_value_def spec_option_def nullish_or_def)


section \<open>What the events do to the session state\<close>

lemma sendMessage_begin_userData [simp]: "userData (sendMessage_begin a m s) = userData s"
  by (simp add: sendMessage_begin_def addUserMessage_def split: sum.splits)

lemma sendMessage_begin_flags [simp]:
  "userInput_disabled (sendMessage_begin a m s) = userInput_disabled s"
  "sendButton_disabled (sendMessage_begin a m s) = sendButton_disabled s"
  by (simp_all add: sendMessage_begin_def addUserMessage_def split: sum.splits)

lemma checkBackendConnection_resume_simps [simp]:
  "userData (checkBackendConnection_resume s) = userData s"
  "userInput_disabled (checkBackendConnection_resume s) = userInput_disabled s"
  "sendButton_disabled (checkBackendConnection_resume s) = sendButton_disabled s"
  "pending (checkBackendConnection_resume s) = pending s"
  by (simp_all add: checkBackendConnection_resume_def Let_def)

lemma finish_simps [simp]:
  "userData (finish rq s) = userData s"
  "userInput_disabled (finish rq s) = userInput_disabled s"
  "sendButton_disabled (finish rq s) = sendButton_disabled s"
  "pending (finish rq s) = pending s"
  by (simp_all add: finish_def)

lemma sendMessage_fetched_userData [simp]:
  "userData (fst (sendMessage_fetched k r s)) = userData s"
  by (simp add: sendMessage_fetched_def removeIndicator_def split: fetch_result.splits)

lemma settle_fetch_userData [simp]: "userData (settle_fetch k r s) = userData s"
proof (cases "sendMessage_fetched k r s")
  case (Pair s' b)
  have "userData (fst (sendMessage_fetched k r s)) = userData s" by simp
  with Pair have "userData s' = userData s" by simp
  with Pair show ?thesis
    by (simp add: settle_fetch_def split: option.splits bool.splits)
qed

lemma select_button_userData [simp]: "userData (select_button i j s) = userData s"
  by (simp add: select_button_def split: node.splits)

lemma run_listener_userData:
  "l \<noteq> Restart \<Longrightarrow> userData (run_listener i j l s) = userData s"
  by (cases l) (simp_all add: Let_def sendMessage_def split: sum.splits)

lemma dispatch_userData:
  "Restart \<notin> set ls \<Longrightarrow> userData (dispatch i j ls s) = userData s"
  by (induction ls arbitrary: s) (auto simp: run_listener_userData)

lemma step_userData:
  assumes "\<not> is_restart_click e s" and "\<forall>k d. e \<noteq> JsonSettled k (JsonValue d)"
  shows "userData (step e s) = userData s"
proof (cases e)
  case Load
  then show ?thesis by (simp add: initChat_def checkBackendConnection_def)
next
  case (SendClick m)
  then show ?thesis by (simp add: sendMessage_def)
next
  case (EnterKey m)
  then show ?thesis by (simp add: sendMessage_def)
next
  case (OptionClick i j)
  with assms(1) show ?thesis
    by (auto simp: click_option_def is_restart_click_def dispatch_userData split: node.splits)
next
  case (FetchSettled k r)
  then show ?thesis by simp
next
  case (JsonSettled k r)
  with assms(2) obtain ex where "r = JsonRejected ex" by (cases r) auto
  with JsonSettled show ?thesis
    by (simp add: settle_json_def sendMessage_parsed_def split: option.splits)
qed

lemma restart_click_listeners:
  "step (OptionClick (length (chatMessages s)) 0) (ended_page s) =
     run_listener (length (chatMessages s)) 0 Restart
       (run_listener (length (chatMessages s)) 0 (OptionSend restart_entry) (ended_page s))"
  by (simp add: click_option_def ended_page_def restart_button_def)

section \<open>The transcript\<close>

lemma set_remove_first_typing: "set (remove_first_typing ns) \<subseteq> set ns"
  by (induction ns rule: remove_first_typing.induct) auto


lemma removeIndicator_Inr:
  "removeIndicator k s = Inr s1 \<Longrightarrow>
     s1 = s\<lparr>chatMessages := remove1 (TypingIndicator k) (chatMessages s)\<rparr>"
  by (simp add: removeIndicator_def split: if_splits)

lemma set_remove_nth: "set (remove_nth i xs) \<subseteq> set xs"
  unfolding remove_nth_def
  using set_take_subset [of i xs] set_drop_subset [of "Suc i" xs] by auto

lemma bot_positions_append:
  assumes "\<forall>n\<in>set ns. \<not> is_bot_message n"
  shows "bot_positions (xs @ ns) = bot_positions xs"
proof -
  have range_split: "[0..<length xs + length ns] = [0..<length xs] @ [length xs..<length xs + length ns]"
    by (rule upt_add_eq_append) simp
  have front_same: "filter (\<lambda>i. is_bot_message ((xs @ ns) ! i)) [0..<length xs] =
      filter (\<lambda>i. is_bot_message (xs ! i)) [0..<length xs]"
    by (rule filter_cong) (simp_all add: nth_append)
  have tail_empty: "filter (\<lambda>i. is_bot_message ((xs @ ns) ! i)) [length xs..<length xs + length ns] = []"
    using assms by (auto simp: filter_empty_conv nth_append)
  have "bot_positions (xs @ ns) =
      filter (\<lambda>i. is_bot_message ((xs @ ns) ! i)) ([0..<length xs] @ [length xs..<length xs + length ns])"
    unfolding bot_positions_def length_append range_split ..
  also have "\<dots> = filter (\<lambda>i. is_bot_message (xs ! i)) [0..<length xs]"
    unfolding filter_append front_same tail_empty by simp
  finally show ?thesis
    by (simp add: bot_positions_def)
qed

lemma bot_positions_three:
  "bot_positions [BotMessage a, BotMessage b, BotMessage c] = [0, 1, 2]"
  by (simp add: bot_positions_def upt_rec)

section \<open>No user message without an echo\<close>

lemma no_user_catch:
  assumes "\<forall>t. UserMessage t \<notin> set (chatMessages s)"
  shows "\<forall>t. UserMessage t \<notin> set (chatMessages (sendMessage_catch e s))"
  using assms set_remove_first_typing [of "chatMessages s"] by auto

lemma no_user_resume:
  assumes "\<forall>t. UserMessage t \<notin> set (chatMessages s)"
  shows "\<forall>t. UserMessage t \<notin> set (chatMessages (checkBackendConnection_resume s))"
  using assms set_remove_nth [of _ "chatMessages s"]
  by (auto simp: checkBackendConnection_resume_def Let_def)

lemma no_user_finish:
  assumes "\<forall>t. UserMessage t \<notin> set (chatMessages s)"
  shows "\<forall>t. UserMessage t \<notin> set (chatMessages (finish rq s))"
  using no_user_resume [OF assms] assms by (simp add: finish_def)

lemma no_user_fetched:
  assumes "\<forall>t. UserMessage t \<notin> set (chatMessages s)"
  shows "\<forall>t. UserMessage t \<notin> set (chatMessages (fst (sendMessage_fetched k r s)))"
proof (cases r)
  case (FetchRejected e)
  then show ?thesis using no_user_catch [OF assms] by (simp add: sendMessage_fetched_def)
next
  case (FetchResponse ok status)
  show ?thesis
  proof (cases "removeIndicator k s")
    case (Inl e)
    with FetchResponse show ?thesis
      using no_user_catch [OF assms] by (simp add: sendMessage_fetched_def)
  next
    case (Inr s1)
    have "set (chatMessages s1) \<subseteq> set (chatMessages s)"
      using removeIndicator_Inr [OF Inr] set_remove1_subset [of _ "chatMessages s"] by simp
    with assms have s1: "\<forall>t. UserMessage t \<notin> set (chatMessages s1)" by auto
    with FetchResponse Inr show ?thesis
      using no_user_catch [OF s1] by (simp add: sendMessage_fetched_def)
  qed
qed

lemma no_user_body:
  assumes "\<forall>t. UserMessage t \<notin> set (chatMessages s)"
  shows "case sendMessage_body data s of
           Inl (e, s') \<Rightarrow> \<forall>t. UserMessage t \<notin> set (chatMessages s')
         | Inr s' \<Rightarrow> \<forall>t. UserMessage t \<notin> set (chatMessages s')"
  using assms
  by (auto simp: sendMessage_body_def addBotMessage_def Let_def
      split: sum.splits dest!: handleAction_Inr)

lemma no_user_parsed:
  assumes "\<forall>t. UserMessage t \<notin> set (chatMessages s)"
  shows "\<forall>t. UserMessage t \<notin> set (chatMessages (sendMessage_parsed r s))"
proof (cases r)
  case (JsonRejected e)
  then show ?thesis using no_user_catch [OF assms] by (simp add: sendMessage_parsed_def)
next
  case (JsonValue data)
  show ?thesis
  proof (cases "sendMessage_body data s")
    case (Inl p)
    obtain e s' where p: "p = (e, s')" by (cases p)
    have "\<forall>t. UserMessage t \<notin> set (chatMessages s')"
      using no_user_body [OF assms, of data] Inl p by simp
    then show ?thesis
      using JsonValue Inl p no_user_catch by (simp add: sendMessage_parsed_def)
  next
    case (Inr s')
    then show ?thesis
      using JsonValue no_user_body [OF assms, of data] by (simp add: sendMessage_parsed_def)
  qed
qed

lemma no_user_settle_fetch:
  assumes "\<forall>t. UserMessage t \<notin> set (chatMessages s)"
  shows "\<forall>t. UserMessage t \<notin> set (chatMessages (settle_fetch k r s))"
proof (cases "sendMessage_fetched k r s")
  case (Pair s' b)
  have s': "\<forall>t. UserMessage t \<notin> set (chatMessages s')"
    using no_user_fetched [OF assms, of k r] Pair by simp
  have "\<forall>t. UserMessage t \<notin> set (chatMessages (finish rq (s'\<lparr>pending := ps\<rparr>)))" for rq ps
    by (rule no_user_finish) (simp add: s')
  with Pair s' assms show ?thesis
    by (simp add: settle_fetch_def split: option.splits bool.splits)
qed

lemma no_user_settle_json:
  assumes "\<forall>t. UserMessage t \<notin> set (chatMessages s)"
  shows "\<forall>t. UserMessage t \<notin> set (chatMessages (settle_json k r s))"
proof -
  have "\<forall>t. UserMessage t \<notin> set (chatMessages (finish rq (sendMessage_parsed r (s\<lparr>pending := ps\<rparr>))))"
    for rq ps
    by (rule no_user_finish, rule no_user_parsed) (simp add: assms)
  with assms show ?thesis
    by (simp add: settle_json_def split: option.splits)
qed

section \<open>The bootstrap turn\<close>

lemma initChat_init:
  "initChat init =
     \<lparr>userData = initial_userData,
      chatMessages = [BotMessage welcomeMsg, BotMessage loadingMsg, TypingIndicator 0],
      userInput_disabled = False, sendButton_disabled = False,
      pending = [\<lparr>req_id = 0, req_message = JStr ''Hello'', req_user_data = initial_userData,
                  req_stage = AwaitFetch, req_bootstrap = True\<rparr>],
      next_id = Suc 0\<rparr>"
  by (simp add: initChat_def checkBackendConnection_def sendMessage_begin_def init_def
      addBotText_def appendChild_def)

lemma bootstrap_fetched:
  "settle_fetch 0 (FetchResponse True status) (initChat init) =
     \<lparr>userData = initial_userData,
      chatMessages = [BotMessage welcomeMsg, BotMessage loadingMsg],
      userInput_disabled = False, sendButton_disabled = False,
      pending = [\<lparr>req_id = 0, req_message = JStr ''Hello'', req_user_data = initial_userData,
                  req_stage = AwaitJson, req_bootstrap = True\<rparr>],
      next_id = Suc 0\<rparr>"
  by (simp add: initChat_init settle_fetch_def sendMessage_fetched_def removeIndicator_def)

lemma bootstrap_parsed:
  assumes "js_get body ''response'' = Inr (JStr r)"
    and "handleAction (field body ''action'') (field body ''data'') s = Inr s'"
  shows "\<exists>ns. chatMessages (run [Load, FetchSettled 0 (FetchResponse True status),
                                  JsonSettled 0 (JsonValue body)] init) =
                [BotMessage welcomeMsg, BotMessage r] @ ns
              \<and> (\<forall>n\<in>set ns. \<not> is_bot_message n)"
proof -
  let ?s2 = "(addBotText r
      \<lparr>userData = initial_userData,
       chatMessages = [BotMessage welcomeMsg, BotMessage loadingMsg],
       userInput_disabled = False, sendButton_disabled = False, pending = [],
       next_id = Suc 0\<rparr>)\<lparr>userData := js_or (field body ''data'') (JObj [])\<rparr>"
  obtain s3 where s3: "handleAction (field body ''action'') (field body ''data'') ?s2 = Inr s3"
    using handleAction_indep [OF assms(2)] by blast
  obtain ns where ns: "chatMessages s3 = chatMessages ?s2 @ ns" "\<forall>n\<in>set ns. \<not> is_bot_message n"
    using handleAction_Inr [OF s3] by blast
  have chat: "chatMessages s3 = [BotMessage welcomeMsg, BotMessage loadingMsg, BotMessage r] @ ns"
    using ns(1) by simp
  have pos: "bot_positions (chatMessages s3) = [0, 1, 2]"
    unfolding chat bot_positions_append [OF ns(2)] by (rule bot_positions_three)
  have "chatMessages (checkBackendConnection_resume s3) = [BotMessage welcomeMsg, BotMessage r] @ ns"
    by (simp add: checkBackendConnection_resume_def Let_def pos) (simp add: chat remove_nth_def)
  then show ?thesis
    using ns(2) s3
    by (auto simp: bootstrap_fetched settle_json_def sendMessage_parsed_def sendMessage_body_def
        assms(1) finish_def)
qed
section \<open>A successful turn\<close>

lemma turns_append: "turns (xs @ ys) s = turns ys (turns xs s)"
  by (induction xs arbitrary: s) simp_all

lemma sendMessage_parsed_userData:
  assumes "js_get body ''response'' = Inr rv" and "textContent_of rv = Inr rt"
  shows "userData (sendMessage_parsed (JsonValue body) s) = js_or (field body ''data'') (JObj [])"
proof (cases "handleAction (field body ''action'') (field body ''data'')
    ((appendChild (BotMessage rt) s)\<lparr>userData := js_or (field body ''data'') (JObj [])\<rparr>)")
  case (Inl e)
  then show ?thesis
    by (simp add: sendMessage_parsed_def sendMessage_body_def addBotMessage_def assms)
next
  case (Inr s3)
  then show ?thesis
    using handleAction_Inr [OF Inr]
    by (simp add: sendMessage_parsed_def sendMessage_body_def addBotMessage_def assms)
qed

lemma settle_json_userData:
  assumes "\<exists>q\<in>set (pending s). req_id q = k \<and> req_stage q = AwaitJson"
    and "js_get body ''response'' = Inr rv" and "textContent_of rv = Inr rt"
  shows "userData (settle_json k (JsonValue body) s) = js_or (field body ''data'') (JObj [])"
proof -
  have "find (\<lambda>q. req_id q = k \<and> req_stage q = AwaitJson) (pending s) \<noteq> None"
    using assms(1) by (auto simp: find_None_iff)
  then show ?thesis
    by (auto simp: settle_json_def sendMessage_parsed_userData [OF assms(2,3)])
qed

lemma settle_fetch_ok:
  assumes "\<exists>q\<in>set (pending s). req_id q = k \<and> req_stage q = AwaitFetch"
    and "TypingIndicator k \<in> set (chatMessages s)"
  shows "settle_fetch k (FetchResponse True status) s =
           s\<lparr>chatMessages := remove1 (TypingIndicator k) (chatMessages s),
             pending := map (\<lambda>q. if req_id q = k then q\<lparr>req_stage := AwaitJson\<rparr> else q)
                          (pending s)\<rparr>"
proof -
  have "find (\<lambda>q. req_id q = k \<and> req_stage q = AwaitFetch) (pending s) \<noteq> None"
    using assms(1) by (auto simp: find_None_iff)
  then show ?thesis
    using assms(2)
    by (auto simp: settle_fetch_def sendMessage_fetched_def removeIndicator_def)
qed

lemma sendMessage_issues_call:
  assumes "textContent_of message = Inr t"
  shows "pending (sendMessage message s) =
           pending s @ [\<lparr>req_id = next_id s, req_message = message, req_user_data = userData s,
                          req_stage = AwaitFetch, req_bootstrap = False\<rparr>]"
    and "TypingIndicator (next_id s) \<in> set (chatMessages (sendMessage message s))"
  using assms by (simp_all add: sendMessage_def sendMessage_begin_def addUserMessage_def)

lemma turn_userData:
  assumes "textContent_of message = Inr t"
    and "js_get body ''response'' = Inr rv" and "textContent_of rv = Inr rt"
  shows "userData (turn (message, status, body) s) = js_or (field body ''data'') (JObj [])"
proof -
  let ?k = "next_id s"
  let ?s1 = "sendMessage message s"
  have p: "\<exists>q\<in>set (pending ?s1). req_id q = ?k \<and> req_stage q = AwaitFetch"
    by (simp add: sendMessage_issues_call(1) [OF assms(1)])
  have q: "\<exists>q\<in>set (pending (settle_fetch ?k (FetchResponse True status) ?s1)).
      req_id q = ?k \<and> req_stage q = AwaitJson"
    unfolding settle_fetch_ok [OF p sendMessage_issues_call(2) [OF assms(1)]]
    by (simp add: sendMessage_issues_call(1) [OF assms(1)])
  show ?thesis
    using settle_json_userData [OF q assms(2,3)] by (simp add: turn_def)
qed

section \<open>Option buttons and calls in flight\<close>

lemma all_buttons_append [simp]: "all_buttons (xs @ ys) = all_buttons xs @ all_buttons ys"
  by (simp add: all_buttons_def)

lemma all_buttons_disabled_after_map:
  "b \<in> set (all_buttons (map disable_node ns)) \<Longrightarrow> btn_disabled b"
proof (induction ns)
  case Nil
  then show ?case by (simp add: all_buttons_def)
next
  case (Cons n ns)
  then show ?case by (cases n) (auto simp: all_buttons_def)
qed

lemma sendMessage_call_disables:
  assumes "pending (sendMessage message s) \<noteq> pending s"
    and "b \<in> set (all_buttons (chatMessages (sendMessage message s)))"
  shows "btn_disabled b"
proof (cases "if message \<noteq> JStr ''Hello'' then addUserMessage message s else Inr s")
  case (Inl e)
  with assms(1) show ?thesis
    by (simp add: sendMessage_def sendMessage_begin_def)
next
  case (Inr s1)
  with assms(2) have "b \<in> set (all_buttons (map disable_node (chatMessages s1)))"
    by (simp add: sendMessage_def sendMessage_begin_def all_buttons_def)
  then show ?thesis by (rule all_buttons_disabled_after_map)
qed

lemma nth_button_in_all_buttons:
  assumes "i < length ns" and "ns ! i = OptionsContainer bs" and "j < length bs"
  shows "bs ! j \<in> set (all_buttons ns)"
proof -
  have "ns ! i \<in> set ns" using assms(1) by simp
  then have "OptionsContainer bs \<in> set ns" using assms(2) by simp
  then have "set bs \<subseteq> set (all_buttons ns)"
    by (force simp: all_buttons_def)
  then show ?thesis using assms(3) by auto
qed

section \<open>Disabled buttons stay disabled\<close>

lemma profile_all_buttons:
  "profile ns = map (\<lambda>b. ((btn_text b, btn_listeners b), btn_disabled b)) (all_buttons ns)"
  by (induction ns) (simp_all add: profile_def node_profile_def all_buttons_def)

lemma profile_append [simp]: "profile (xs @ ys) = profile xs @ profile ys"
  by (simp add: profile_def)

lemma profile_Cons: "profile (n # ns) = node_profile n @ profile ns"
  by (simp add: profile_def)

lemma profile_Nil [simp]: "profile [] = []"
  by (simp add: profile_def)

lemma profile_single [simp]: "profile [n] = node_profile n"
  by (simp add: profile_def)

lemma continues_refl [simp]: "continues ps ps"
  by (simp add: continues_def)

lemma continues_trans: "continues ps qs \<Longrightarrow> continues qs rs \<Longrightarrow> continues ps rs"
  by (auto simp: continues_def)

lemma continues_append [simp]: "continues ps (ps @ qs)"
  by (simp add: continues_def nth_append)

lemma continues_append_both:
  "continues ps ps' \<Longrightarrow> length ps = length ps' \<Longrightarrow> continues qs qs' \<Longrightarrow>
     continues (ps @ qs) (ps' @ qs')"
  by (auto simp: continues_def nth_append)

lemma node_profile_simps [simp]:
  "node_profile (BotMessage t) = []"
  "node_profile (UserMessage t) = []"
  "node_profile (TypingIndicator k) = []"
  "node_profile (ErrorNotice t) = []"
  "node_profile (OptionsContainer bs) =
     map (\<lambda>b. ((btn_text b, btn_listeners b), btn_disabled b)) bs"
  by (simp_all add: node_profile_def)

lemma node_profile_bot: "is_bot_message n \<Longrightarrow> node_profile n = []"
  by (cases n) simp_all

lemma profile_remove_first_typing [simp]: "profile (remove_first_typing ns) = profile ns"
  by (induction ns rule: remove_first_typing.induct) (simp_all add: profile_Cons)

lemma profile_remove1_typing [simp]: "profile (remove1 (TypingIndicator k) ns) = profile ns"
  by (induction ns) (auto simp: profile_Cons)

lemma profile_remove_nth:
  assumes "i < length ns" and "is_bot_message (ns ! i)"
  shows "profile (remove_nth i ns) = profile ns"
proof -
  have "ns = take i ns @ ns ! i # drop (Suc i) ns"
    using assms(1) by (rule id_take_nth_drop)
  then have "profile ns = profile (take i ns) @ node_profile (ns ! i) @ profile (drop (Suc i) ns)"
    by (metis profile_append profile_Cons)
  then show ?thesis
    using node_profile_bot [OF assms(2)] by (simp add: remove_nth_def)
qed

lemma profile_disable:
  "length (profile (map disable_node ns)) = length (profile ns) \<and>
   continues (profile ns) (profile (map disable_node ns))"
proof (induction ns)
  case Nil
  then show ?case by (simp add: profile_def)
next
  case (Cons n ns)
  have "length (node_profile (disable_node n)) = length (node_profile n) \<and>
      continues (node_profile n) (node_profile (disable_node n))"
    by (cases n) (simp_all add: continues_def)
  with Cons show ?case
    by (simp add: profile_Cons continues_append_both)
qed

lemma profile_update:
  assumes "i < length ns" and "node_profile n = node_profile (ns ! i)"
  shows "profile (ns[i := n]) = profile ns"
proof -
  have "map node_profile (ns[i := n]) = (map node_profile ns)[i := node_profile (ns ! i)]"
    using assms(2) by (simp add: map_update)
  also have "\<dots> = map node_profile ns"
    using assms(1) by (metis list_update_id map_update)
  finally show ?thesis by (simp add: profile_def)
qed

lemma profile_select [simp]:
  "profile (chatMessages (select_button i j s)) = profile (chatMessages s)"
proof (cases "i < length (chatMessages s)")
  case False
  then show ?thesis by (simp add: select_button_def)
next
  case True
  show ?thesis
  proof (cases "chatMessages s ! i")
    case (OptionsContainer bs)
    have "map (\<lambda>b. ((btn_text b, btn_listeners b), btn_disabled b))
          ((map (\<lambda>b. b\<lparr>btn_selected := False\<rparr>) bs)[j := (bs ! j)\<lparr>btn_selected := True\<rparr>]) =
        map (\<lambda>b. ((btn_text b, btn_listeners b), btn_disabled b)) bs" if "j < length bs"
      using that by (simp add: list_eq_iff_nth_eq nth_list_update)
    then show ?thesis
      using True OptionsContainer by (simp add: select_button_def profile_update)
  qed (simp_all add: select_button_def)
qed

lemma profile_catch [simp]:
  "profile (chatMessages (sendMessage_catch e s)) = profile (chatMessages s)"
  by simp

lemma continues_begin:
  "continues (profile (chatMessages s)) (profile (chatMessages (sendMessage_begin a m s)))"
proof (cases "if m \<noteq> JStr ''Hello'' then addUserMessage m s else Inr s")
  case (Inl e)
  then show ?thesis by (simp add: sendMessage_begin_def)
next
  case (Inr s1)
  then have "profile (chatMessages s1) = profile (chatMessages s)"
    by (auto simp: addUserMessage_def split: if_splits sum.splits)
  then show ?thesis
    using Inr profile_disable [of "chatMessages s1"]
    by (simp add: sendMessage_begin_def profile_Cons)
qed

lemma profile_resume [simp]:
  "profile (chatMessages (checkBackendConnection_resume s)) = profile (chatMessages s)"
proof (cases "length (bot_positions (chatMessages s)) > 1")
  case False
  then show ?thesis by (simp add: checkBackendConnection_resume_def Let_def)
next
  case True
  let ?ps = "bot_positions (chatMessages s)"
  have "?ps ! (length ?ps - 2) \<in> set ?ps"
    using True by simp
  then have "?ps ! (length ?ps - 2) < length (chatMessages s) \<and>
      is_bot_message (chatMessages s ! (?ps ! (length ?ps - 2)))"
    by (simp add: bot_positions_def)
  then show ?thesis
    by (simp add: checkBackendConnection_resume_def Let_def profile_remove_nth)
qed

lemma profile_finish [simp]:
  "profile (chatMessages (finish rq s)) = profile (chatMessages s)"
  by (simp add: finish_def)

lemma profile_fetched [simp]:
  "profile (chatMessages (fst (sendMessage_fetched k r s))) = profile (chatMessages s)"
  by (simp add: sendMessage_fetched_def removeIndicator_def split: fetch_result.splits)

lemma continues_parsed:
  "continues (profile (chatMessages s)) (profile (chatMessages (sendMessage_parsed r s)))"
proof (cases r)
  case (JsonRejected e)
  then show ?thesis by (simp add: sendMessage_parsed_def)
next
  case (JsonValue data)
  show ?thesis
  proof (cases "sendMessage_body data s")
    case (Inl p)
    obtain e s' where p: "p = (e, s')" by (cases p)
    have "profile (chatMessages s') = profile (chatMessages s)"
      using Inl p
      by (auto simp: sendMessage_body_def addBotMessage_def Let_def split: sum.splits)
    then show ?thesis
      using JsonValue Inl p by (simp add: sendMessage_parsed_def)
  next
    case (Inr s')
    then have "\<exists>ns. chatMessages s' = chatMessages s @ ns"
      by (auto simp: sendMessage_body_def addBotMessage_def Let_def
          split: sum.splits dest!: handleAction_Inr)
    then show ?thesis
      using JsonValue Inr by (auto simp: sendMessage_parsed_def)
  qed
qed

lemma continues_settle_fetch:
  "continues (profile (chatMessages s)) (profile (chatMessages (settle_fetch k r s)))"
proof (cases "sendMessage_fetched k r s")
  case (Pair s' b)
  have "profile (chatMessages (fst (sendMessage_fetched k r s))) = profile (chatMessages s)"
    by simp
  with Pair have "profile (chatMessages s') = profile (chatMessages s)" by simp
  with Pair show ?thesis
    by (simp add: settle_fetch_def split: option.splits bool.splits)
qed

lemma continues_settle_json:
  "continues (profile (chatMessages s)) (profile (chatMessages (settle_json k r s)))"
  using continues_parsed [of "s\<lparr>pending := ps\<rparr>" r for ps]
  by (simp add: settle_json_def split: option.splits)

lemma continues_run_listener:
  "continues (profile (chatMessages s)) (profile (chatMessages (run_listener i j l s)))"
proof (cases l)
  case (OptionSend opt)
  then show ?thesis
    using continues_begin [of "select_button i j s" False]
    by (simp add: Let_def sendMessage_def split: sum.splits)
next
  case Restart
  then show ?thesis by simp
qed

lemma continues_dispatch:
  "continues (profile (chatMessages s)) (profile (chatMessages (dispatch i j ls s)))"
proof (induction ls arbitrary: s)
  case Nil
  then show ?case by simp
next
  case (Cons l ls)
  show ?case
    using continues_trans [OF continues_run_listener Cons] by simp
qed

lemma continues_step:
  "continues (profile (chatMessages s)) (profile (chatMessages (step e s)))"
proof (cases e)
  case Load
  have "continues (profile (chatMessages (addBotText loadingMsg (addBotText welcomeMsg s))))
      (profile (chatMessages (initChat s)))"
    unfolding initChat_def checkBackendConnection_def by (rule continues_begin)
  then show ?thesis using Load by (simp add: profile_Cons)
next
  case (SendClick m)
  then show ?thesis using continues_begin by (simp add: sendMessage_def)
next
  case (EnterKey m)
  then show ?thesis using continues_begin by (simp add: sendMessage_def)
next
  case (OptionClick i j)
  then show ?thesis
    using continues_dispatch by (simp add: click_option_def split: node.splits)
next
  case (FetchSettled k r)
  then show ?thesis using continues_settle_fetch by simp
next
  case (JsonSettled k r)
  then show ?thesis using continues_settle_json by simp
qed

lemma continues_run:
  "continues (profile (chatMessages s)) (profile (chatMessages (run es s)))"
proof (induction es arbitrary: s)
  case Nil
  then show ?case by simp
next
  case (Cons e es)
  show ?case
    using continues_trans [OF continues_step Cons] by simp
qed

lemma button_at_index:
  assumes "i < length ns" and "ns ! i = OptionsContainer bs" and "j < length bs"
  shows "button_index ns i j < length (all_buttons ns) \<and>
         all_buttons ns ! button_index ns i j = bs ! j"
proof -
  have "ns = take i ns @ ns ! i # drop (Suc i) ns"
    using assms(1) by (rule id_take_nth_drop)
  then have "all_buttons ns = all_buttons (take i ns) @ bs @ all_buttons (drop (Suc i) ns)"
    using assms(2) by (metis all_buttons_append all_buttons_def
        buttons_of.simps(1) concat.simps(2) list.simps(9))
  then show ?thesis
    using assms(3) by (simp add: button_index_def nth_append)
qed

lemma click_needs_enabled_button:
  assumes "step (OptionClick i j) s \<noteq> s"
  shows "button_index (chatMessages s) i j < length (all_buttons (chatMessages s)) \<and>
         \<not> btn_disabled (all_buttons (chatMessages s) ! button_index (chatMessages s) i j)"
proof -
  from assms obtain bs where h: "i < length (chatMessages s)"
      "chatMessages s ! i = OptionsContainer bs" "j < length bs" "\<not> btn_disabled (bs ! j)"
    by (auto simp: click_option_def split: if_splits node.splits)
  show ?thesis
    using button_at_index [OF h(1,2,3)] h(4) by simp
qed

lemma continues_buttons:
  assumes "continues (profile ns) (profile ns')" and "n < length (all_buttons ns)"
  shows "n < length (all_buttons ns')
    \<and> btn_text (all_buttons ns' ! n) = btn_text (all_buttons ns ! n)
    \<and> btn_listeners (all_buttons ns' ! n) = btn_listeners (all_buttons ns ! n)
    \<and> (btn_disabled (all_buttons ns ! n) \<longrightarrow> btn_disabled (all_buttons ns' ! n))"
proof -
  let ?f = "\<lambda>b. ((btn_text b, btn_listeners b), btn_disabled b)"
  have len: "n < length (all_buttons ns')"
    using assms by (simp add: continues_def profile_all_buttons)
  have n: "n < length (profile ns)"
    using assms(2) by (simp add: profile_all_buttons)
  have "\<forall>m<length (profile ns).
      fst (profile ns' ! m) = fst (profile ns ! m) \<and> (snd (profile ns ! m) \<longrightarrow> snd (profile ns' ! m))"
    using assms(1) by (simp add: continues_def)
  with n have "fst (profile ns' ! n) = fst (profile ns ! n)
      \<and> (snd (profile ns ! n) \<longrightarrow> snd (profile ns' ! n))"
    by blast
  then show ?thesis
    using len assms(2) by (simp add: profile_all_buttons)
qed

section \<open>Numbers of calls and of typing indicators\<close>

lemma typing_in_disable [simp]:
  "TypingIndicator k \<in> set (map disable_node ns) \<longleftrightarrow> TypingIndicator k \<in> set ns"
proof (induction ns)
  case Nil
  then show ?case by simp
next
  case (Cons n ns)
  then show ?case by (cases n) auto
qed

lemma disable_node_typing [simp]:
  "(TypingIndicator k = disable_node x) = (x = TypingIndicator k)"
  by (cases x) auto

lemma next_id_simps [simp]:
  "next_id (checkBackendConnection_resume s) = next_id s"
  "next_id (finish rq s) = next_id s"
  "next_id (select_button i j s) = next_id s"
  "pending (select_button i j s) = pending s"
  by (simp_all add: checkBackendConnection_resume_def finish_def select_button_def Let_def
      split: node.splits)

















section \<open>A failed turn\<close>






lemma all_buttons_remove_first_typing [simp]:
  "all_buttons (remove_first_typing ns) = all_buttons ns"
  by (induction ns rule: remove_first_typing.induct) (simp_all add: all_buttons_def)


lemma all_buttons_simps [simp]:
  "all_buttons [] = []"
  "all_buttons (BotMessage t # ns) = all_buttons ns"
  "all_buttons (UserMessage t # ns) = all_buttons ns"
  "all_buttons (TypingIndicator k # ns) = all_buttons ns"
  "all_buttons (ErrorNotice t # ns) = all_buttons ns"
  "all_buttons (OptionsContainer bs # ns) = bs @ all_buttons ns"
  by (simp_all add: all_buttons_def)




section \<open>The claims\<close>

text \<open>
  C1. After every turn whose call succeeds and whose reply can be shown, the session state
  is \<^verbatim>\<open>data.data || {}\<close> of that turn's response, whatever the turns before it were
  and whatever the state was: it is exactly the object the server sent whenever the server
  sent one, and the empty object when the server sent none. Nothing of an earlier state
  remains. The same holds on any page, whatever happened before, when the body of a call
  awaiting it arrives.
\<close>

theorem session_state_is_last_response:
  assumes "textContent_of message = Inr t"
    and "js_get body ''response'' = Inr rv" and "textContent_of rv = Inr rt"
  shows "userData (turns (ts @ [(message, status, body)]) s) = js_or (field body ''data'') (JObj [])
    \<and> (\<forall>kvs. field body ''data'' = JObj kvs \<longrightarrow>
          userData (turns (ts @ [(message, status, body)]) s) = JObj kvs)
    \<and> ((\<exists>q\<in>set (pending s). req_id q = k \<and> req_stage q = AwaitJson) \<longrightarrow>
          userData (step (JsonSettled k (JsonValue body)) s) = js_or (field body ''data'') (JObj []))"
proof -
  have "userData (turns (ts @ [(message, status, body)]) s) = js_or (field body ''data'') (JObj [])"
    by (simp add: turns_append turn_userData [OF assms])
  then show ?thesis
    using settle_json_userData [OF _ assms(2,3)]
    by (auto simp: js_or_def)
qed

theorem session_state_is_last_response_witness:
  "textContent_of (JStr ''book'') = Inr ''book''
   \<and> js_get (JObj [(''response'', JStr ''When?''), (''data'', JObj [(''step'', JStr ''date'')])])
        ''response'' = Inr (JStr ''When?'')
   \<and> textContent_of (JStr ''When?'') = Inr ''When?''
   \<and> userData (turns [(JStr ''hi'', ''200'', JObj [(''response'', JStr ''Hello!''),
                                                   (''data'', JObj [(''step'', JStr ''start''),
                                                                    (''name'', JStr ''Ann'')])]),
                      (JStr ''book'', ''200'', JObj [(''response'', JStr ''When?''),
                                                     (''data'', JObj [(''step'', JStr ''date'')])])]
        init) = JObj [(''step'', JStr ''date'')]"
proof -
  have h1: "textContent_of (JStr ''book'') = Inr ''book''"
    by simp
  have h2: "js_get (JObj [(''response'', JStr ''When?''), (''data'', JObj [(''step'', JStr ''date'')])])
        ''response'' = Inr (JStr ''When?'')"
    by (simp add: js_get_def)
  have h3: "textContent_of (JStr ''When?'') = Inr ''When?''"
    by simp
  show ?thesis
    using h1 h2 h3 session_state_is_last_response [OF h1 h2 h3,
        of "[(JStr ''hi'', ''200'', JObj [(''response'', JStr ''Hello!''),
               (''data'', JObj [(''step'', JStr ''start''), (''name'', JStr ''Ann'')])])]"
           "''200''" init]
    by (simp add: js_or_def)
qed




text \<open>
  C3 (as the code has it). Whenever \<^verbatim>\<open>sendMessage\<close> puts a call in flight, every
  option button of the document is disabled. A click on a disabled option button does
  nothing, and no event enables a button again: whatever happens afterwards, every button
  keeps its place among the buttons of the document, its text and its listeners, and stays
  disabled once it is. So after a call has been put in flight, no click on an option that
  was displayed at that moment ever does anything, whichever events come in between;
  options rendered later by a reply are new buttons and are enabled. The free-text paths
  have no guard: with the control enabled, a non-empty text puts a further call in flight
  whatever is already pending.
\<close>

theorem option_buttons_stay_disabled:
  "(pending (sendMessage message s) \<noteq> pending s \<longrightarrow>
      (\<forall>b\<in>set (all_buttons (chatMessages (sendMessage message s))). btn_disabled b)
      \<and> (\<forall>es i j.
            button_index (chatMessages (run es (sendMessage message s))) i j
              < length (all_buttons (chatMessages s)) \<longrightarrow>
            step (OptionClick i j) (run es (sendMessage message s)) =
              run es (sendMessage message s)))
   \<and> ((\<forall>bs. i < length (chatMessages s) \<and> chatMessages s ! i = OptionsContainer bs \<and> j < length bs
             \<longrightarrow> btn_disabled (bs ! j)) \<longrightarrow>
        step (OptionClick i j) s = s)
   \<and> (\<forall>es n. n < length (all_buttons (chatMessages s)) \<longrightarrow>
          n < length (all_buttons (chatMessages (run es s)))
          \<and> btn_text (all_buttons (chatMessages (run es s)) ! n) =
              btn_text (all_buttons (chatMessages s) ! n)
          \<and> btn_listeners (all_buttons (chatMessages (run es s)) ! n) =
              btn_listeners (all_buttons (chatMessages s) ! n)
          \<and> (btn_disabled (all_buttons (chatMessages s) ! n) \<longrightarrow>
                btn_disabled (all_buttons (chatMessages (run es s)) ! n)))
   \<and> (m \<noteq> [] \<longrightarrow>
        pending (step (SendClick m) (s\<lparr>sendButton_disabled := False\<rparr>)) =
          pending s @ [\<lparr>req_id = next_id s, req_message = JStr m, req_user_data = userData s,
                         req_stage = AwaitFetch, req_bootstrap = False\<rparr>]
        \<and> pending (step (EnterKey m) (s\<lparr>userInput_disabled := False\<rparr>)) =
          pending s @ [\<lparr>req_id = next_id s, req_message = JStr m, req_user_data = userData s,
                         req_stage = AwaitFetch, req_bootstrap = False\<rparr>])"
proof -
  have stay: "n < length (all_buttons (chatMessages (run es t)))
      \<and> btn_text (all_buttons (chatMessages (run es t)) ! n) =
          btn_text (all_buttons (chatMessages t) ! n)
      \<and> btn_listeners (all_buttons (chatMessages (run es t)) ! n) =
          btn_listeners (all_buttons (chatMessages t) ! n)
      \<and> (btn_disabled (all_buttons (chatMessages t) ! n) \<longrightarrow>
            btn_disabled (all_buttons (chatMessages (run es t)) ! n))"
    if "n < length (all_buttons (chatMessages t))" for es n t
    using continues_buttons [OF continues_run that] .
  have a: "\<forall>b\<in>set (all_buttons (chatMessages (sendMessage message s))). btn_disabled b"
    if "pending (sendMessage message s) \<noteq> pending s"
    using sendMessage_call_disables [OF that] by blast
  have b: "step (OptionClick i j) (run es (sendMessage message s)) = run es (sendMessage message s)"
    if issued: "pending (sendMessage message s) \<noteq> pending s"
      and old: "button_index (chatMessages (run es (sendMessage message s))) i j
        < length (all_buttons (chatMessages s))"
    for es i j
  proof (rule ccontr)
    let ?s1 = "sendMessage message s"
    let ?n = "button_index (chatMessages (run es ?s1)) i j"
    assume "step (OptionClick i j) (run es ?s1) \<noteq> run es ?s1"
    then have enabled: "\<not> btn_disabled (all_buttons (chatMessages (run es ?s1)) ! ?n)"
      using click_needs_enabled_button by blast
    have "continues (profile (chatMessages s)) (profile (chatMessages ?s1))"
      unfolding sendMessage_def by (rule continues_begin)
    then have n1: "?n < length (all_buttons (chatMessages ?s1))"
      using continues_buttons old by blast
    then have "btn_disabled (all_buttons (chatMessages ?s1) ! ?n)"
      using a [OF issued] by simp
    then have "btn_disabled (all_buttons (chatMessages (run es ?s1)) ! ?n)"
      using stay [OF n1, of es] by simp
    with enabled show False by simp
  qed
  have c: "(\<forall>bs. i < length (chatMessages s) \<and> chatMessages s ! i = OptionsContainer bs \<and> j < length bs
             \<longrightarrow> btn_disabled (bs ! j)) \<longrightarrow>
        step (OptionClick i j) s = s"
    by (auto simp: click_option_def split: node.splits)
  have d: "pending (sendMessage (JStr m) t) =
      pending t @ [\<lparr>req_id = next_id t, req_message = JStr m, req_user_data = userData t,
                     req_stage = AwaitFetch, req_bootstrap = False\<rparr>]" for t
    by (rule sendMessage_issues_call(1)) simp
  show ?thesis
    using a b c stay [of _ s] by (simp add: d)
qed

theorem option_buttons_stay_disabled_witness:
  "pending (sendMessage (JStr ''Yes'') (ended_page init)) \<noteq> pending (ended_page init)
   \<and> all_buttons (chatMessages (sendMessage (JStr ''Yes'') (ended_page init))) =
       [restart_button\<lparr>btn_disabled := True\<rparr>]
   \<and> button_index
        (chatMessages (run [FetchSettled 0 (FetchRejected (Exn ''TimeoutError'' ''signal timed out''))]
           (sendMessage (JStr ''Yes'') (ended_page init)))) 0 0 = 0
   \<and> step (OptionClick 0 0)
        (run [FetchSettled 0 (FetchRejected (Exn ''TimeoutError'' ''signal timed out''))]
           (sendMessage (JStr ''Yes'') (ended_page init))) =
       run [FetchSettled 0 (FetchRejected (Exn ''TimeoutError'' ''signal timed out''))]
         (sendMessage (JStr ''Yes'') (ended_page init))
   \<and> length (pending (step (SendClick ''again'') (initChat init))) = 2"
proof -
  let ?s1 = "sendMessage (JStr ''Yes'') (ended_page init)"
  let ?es = "[FetchSettled 0 (FetchRejected (Exn ''TimeoutError'' ''signal timed out''))]"
  have a: "pending ?s1 \<noteq> pending (ended_page init)"
    by (simp add: sendMessage_issues_call(1))
  have b: "all_buttons (chatMessages ?s1) = [restart_button\<lparr>btn_disabled := True\<rparr>]"
    by (simp add: sendMessage_def sendMessage_begin_def ended_page_def init_def all_buttons_def)
  have c: "button_index (chatMessages (run ?es ?s1)) 0 0 = 0"
    by (simp add: button_index_def all_buttons_def)
  have d: "button_index (chatMessages (run ?es ?s1)) 0 0
      < length (all_buttons (chatMessages (ended_page init)))"
    unfolding c by (simp add: ended_page_def init_def all_buttons_def)
  have e: "step (OptionClick 0 0) (run ?es ?s1) = run ?es ?s1"
    using option_buttons_stay_disabled [of "JStr ''Yes''" "ended_page init"] a d by blast
  have f: "initChat init = (initChat init)\<lparr>sendButton_disabled := False\<rparr>"
    by (simp add: initChat_init)
  have g: "length (pending (step (SendClick ''again'') (initChat init))) = 2"
    using option_buttons_stay_disabled [of _ "initChat init" _ _ "''again''"] f
    by (simp add: initChat_init)
  show ?thesis
    using a b c e g by simp
qed

text \<open>
  C3 as stated fails. While the call of the bootstrap turn is pending, the user types a
  message and clicks send: a second call is put in flight and both are pending at once,
  each awaiting its \<^verbatim>\<open>fetch\<close>.
\<close>

theorem two_calls_in_flight_counterexample:
  "map req_message (pending (run [Load, SendClick ''hi''] init)) = [JStr ''Hello'', JStr ''hi'']
   \<and> map req_stage (pending (run [Load, SendClick ''hi''] init)) = [AwaitFetch, AwaitFetch]"
  by (simp add: initChat_init sendMessage_def sendMessage_begin_def)

text \<open>
  C4. A response with action \<^verbatim>\<open>show_options\<close> whose \<^verbatim>\<open>data.options\<close> is the
  string \<^verbatim>\<open>"abc"\<close> (present, not an array): \<^verbatim>\<open>handleAction\<close> passes it to
  \<^verbatim>\<open>addOptionsToChat\<close>, whose \<^verbatim>\<open>options.forEach\<close> throws a TypeError. The
  throw leaves \<^verbatim>\<open>handleAction\<close>; the \<^verbatim>\<open>catch\<close> block of
  \<^verbatim>\<open>sendMessage\<close> turns it into an error notice after the reply has been shown and
  the session state replaced.
\<close>

theorem show_options_non_array_throws:
  "handleAction (JStr ''show_options'') (JObj [(''options'', JStr ''abc'')]) s =
     Inl (Exn ''TypeError'' ''options.forEach is not a function'')
   \<and> sendMessage_parsed
       (JsonValue (JObj [(''response'', JStr ''Pick one''), (''action'', JStr ''show_options''),
                         (''data'', JObj [(''options'', JStr ''abc'')])])) s =
     sendMessage_catch (Exn ''TypeError'' ''options.forEach is not a function'')
       ((addBotText ''Pick one'' s)\<lparr>userData := JObj [(''options'', JStr ''abc'')]\<rparr>)"
  by (simp add: handleAction_def sendMessage_parsed_def sendMessage_body_def js_get_def js_or_def)

text \<open>
  C5 (as the code has it). For a \<^verbatim>\<open>show_options\<close> action whose \<^verbatim>\<open>options\<close>
  is an array with no \<^verbatim>\<open>null\<close> or \<^verbatim>\<open>undefined\<close> entry, each entry's label
  \<^verbatim>\<open>entry.text || entry\<close> having a text, \<^verbatim>\<open>handleAction\<close> appends one
  container with one enabled button per entry, in order; the button shows the text of
  \<^verbatim>\<open>entry.text || entry\<close> and its click sends \<^verbatim>\<open>entry.value || entry\<close>. The
  fallback is \<^verbatim>\<open>||\<close>, so a falsy text or value (an empty string, say) also falls
  back to the entry.
\<close>

theorem show_options_one_button_per_entry:
  assumes "field data ''options'' = JArr xs"
    and "\<forall>e\<in>set xs. e \<noteq> JNull \<and> e \<noteq> JUndefined \<and>
           textContent_of (js_or (field e ''text'') e) = Inr (label e)"
  shows "handleAction (JStr ''show_options'') data s =
           Inr (appendChild (OptionsContainer
                  (map (\<lambda>e. \<lparr>btn_text = label e, btn_disabled = False, btn_selected = False,
                               btn_listeners = [OptionSend e]\<rparr>) xs)) s)
         \<and> (\<forall>e\<in>set xs. option_value e = Inr (js_or (field e ''value'') e))"
proof -
  have "truthy data" using assms(1) by (rule truthy_field)
  then have "handleAction (JStr ''show_options'') data s = addOptionsToChat (JArr xs) s"
    using assms(1) by (simp add: handleAction_def)
  moreover have "\<forall>e\<in>set xs. option_value e = Inr (js_or (field e ''value'') e)"
    using assms(2) by (simp add: option_value_def js_get_def)
  ultimately show ?thesis
    using make_buttons_map [OF assms(2)] by simp
qed

text \<open>The instance of the specification: \<^verbatim>\<open>options = ["A","B"]\<close> gives two buttons with
  texts and values \<^verbatim>\<open>A\<close> and \<^verbatim>\<open>B\<close>.\<close>

theorem show_options_one_button_per_entry_witness:
  "handleAction (JStr ''show_options'') (JObj [(''options'', JArr [JStr ''A'', JStr ''B''])]) init =
     Inr (init\<lparr>chatMessages :=
       [OptionsContainer
         [\<lparr>btn_text = ''A'', btn_disabled = False, btn_selected = False,
            btn_listeners = [OptionSend (JStr ''A'')]\<rparr>,
          \<lparr>btn_text = ''B'', btn_disabled = False, btn_selected = False,
            btn_listeners = [OptionSend (JStr ''B'')]\<rparr>]]\<rparr>)
   \<and> option_value (JStr ''A'') = Inr (JStr ''A'')
   \<and> option_value (JStr ''B'') = Inr (JStr ''B'')"
proof -
  let ?label = "\<lambda>e. case e of JStr t \<Rightarrow> t | _ \<Rightarrow> []"
  have h1: "field (JObj [(''options'', JArr [JStr ''A'', JStr ''B''])]) ''options'' =
      JArr [JStr ''A'', JStr ''B'']"
    by simp
  have h2: "\<forall>e\<in>set [JStr ''A'', JStr ''B'']. e \<noteq> JNull \<and> e \<noteq> JUndefined \<and>
           textContent_of (js_or (field e ''text'') e) = Inr (?label e)"
    by (simp add: js_or_def)
  show ?thesis
    using show_options_one_button_per_entry [OF h1 h2, of init]
    by (simp add: appendChild_def init_def js_or_def)
qed

text \<open>
  C5 as stated fails. For the entry \<^verbatim>\<open>{text: "", value: ""}\<close> the specification's
  \<^verbatim>\<open>??\<close> gives label and value \<^verbatim>\<open>""\<close>, while the script's \<^verbatim>\<open>||\<close> falls
  back to the entry: the button reads \<^verbatim>\<open>[object Object]\<close> and its click sends the
  entry object. For the array \<^verbatim>\<open>[null]\<close> no option is rendered at all:
  \<^verbatim>\<open>option.text\<close> throws.
\<close>

theorem show_options_coercion_counterexample:
  "\<not> renders_per_spec [JObj [(''text'', JStr ''''), (''value'', JStr '''')]] init
   \<and> \<not> renders_per_spec [JNull] init
   \<and> handleAction (JStr ''show_options'')
       (JObj [(''options'', JArr [JObj [(''text'', JStr ''''), (''value'', JStr '''')]])]) init =
     Inr (init\<lparr>chatMessages :=
       [OptionsContainer
         [\<lparr>btn_text = ''[object Object]'', btn_disabled = False, btn_selected = False,
            btn_listeners = [OptionSend (JObj [(''text'', JStr ''''), (''value'', JStr '''')])]\<rparr>]]\<rparr>)
   \<and> option_value (JObj [(''text'', JStr ''''), (''value'', JStr '''')]) =
       Inr (JObj [(''text'', JStr ''''), (''value'', JStr '''')])
   \<and> spec_option (JObj [(''text'', JStr ''''), (''value'', JStr '''')]) = (JStr '''', JStr '''')
   \<and> handleAction (JStr ''show_options'') (JObj [(''options'', JArr [JNull])]) init =
       Inl (Exn ''TypeError'' ''Cannot read properties of null'')"
  by (simp add: renders_per_spec_def shown_option_def handleAction_def make_button_literal
      appendChild_def init_def option_value_def js_get_def js_or_def spec_option_def
      nullish_or_def make_button_def textContent_of_def)

text \<open>
  C6. When the action tag of a response is absent (\<^verbatim>\<open>undefined\<close>), \<^verbatim>\<open>null\<close> or
  any value other than the ten recognized tags, \<^verbatim>\<open>handleAction\<close> returns normally
  and leaves the page exactly as it was: no option is rendered and the free-text controls
  are not touched. The whole handling of such a response, when its reply is a string, adds
  the reply to the transcript, replaces the session state and does nothing else.
\<close>

theorem unrecognized_action_is_free_text:
  assumes "action \<notin> JStr ` set recognized_tags"
  shows "handleAction action data s = Inr s
    \<and> (field body ''action'' = action \<and> js_get body ''response'' = Inr (JStr r) \<longrightarrow>
         sendMessage_parsed (JsonValue body) s =
           (addBotText r s)\<lparr>userData := js_or (field body ''data'') (JObj [])\<rparr>)"
proof -
  have h: "handleAction action d t = Inr t" for d t
    using assms by (simp add: handleAction_def recognized_tags_def image_iff)
  show ?thesis
    by (simp add: h sendMessage_parsed_def sendMessage_body_def)
qed

theorem unrecognized_action_is_free_text_witness:
  "JStr ''foo'' \<notin> JStr ` set recognized_tags
   \<and> handleAction (JStr ''foo'') (JObj [(''options'', JArr [JStr ''A''])]) init = Inr init
   \<and> handleAction JNull JUndefined init = Inr init
   \<and> chatMessages (sendMessage_parsed
        (JsonValue (JObj [(''response'', JStr ''ok''), (''action'', JStr ''foo'')])) init) =
       [BotMessage ''ok'']"
proof -
  have a: "JStr ''foo'' \<notin> JStr ` set recognized_tags"
    by (simp add: recognized_tags_def)
  have b: "JNull \<notin> JStr ` set recognized_tags"
    by auto
  show ?thesis
    using a unrecognized_action_is_free_text [OF a, of "JObj [(''options'', JArr [JStr ''A''])]" init
        "JObj [(''response'', JStr ''ok''), (''action'', JStr ''foo'')]" "''ok''"]
      unrecognized_action_is_free_text [OF b, of JUndefined init JNull "[]"]
    by (simp add: js_get_def init_def)
qed

text \<open>
  C7. On \<^verbatim>\<open>conversation_end\<close> the dispatcher disables both free-text controls and
  appends the restart button (text \<^verbatim>\<open>Start New Conversation\<close>, value
  \<^verbatim>\<open>Hello\<close>); on that page a click on send or a press of Enter does nothing. A click
  on the restart button leaves the session state at its initial value
  \<^verbatim>\<open>{state: null}\<close> and both controls enabled. No other event resets the session
  state: an event that is neither a click on a button with the restart listener nor the
  arrival of a parsed body leaves it as it is.
\<close>

theorem conversation_end_and_restart:
  "handleAction (JStr ''conversation_end'') data s = Inr (ended_page s)
   \<and> step (SendClick m) (ended_page s) = ended_page s
   \<and> step (EnterKey m) (ended_page s) = ended_page s
   \<and> option_value restart_entry = Inr (JStr ''Hello'')
   \<and> userData (step (OptionClick (length (chatMessages s)) 0) (ended_page s)) = initial_userData
   \<and> \<not> userInput_disabled (step (OptionClick (length (chatMessages s)) 0) (ended_page s))
   \<and> \<not> sendButton_disabled (step (OptionClick (length (chatMessages s)) 0) (ended_page s))
   \<and> (\<forall>e t. \<not> is_restart_click e t \<and> (\<forall>k d. e \<noteq> JsonSettled k (JsonValue d)) \<longrightarrow>
          userData (step e t) = userData t)"
  unfolding restart_click_listeners
  by (auto simp: handleAction_conversation_end step_userData initial_userData_def
      option_value_def restart_entry_def js_get_def js_or_def)
    (simp_all add: ended_page_def)

theorem conversation_end_and_restart_witness:
  "handleAction (JStr ''conversation_end'') JNull (init\<lparr>userData := JObj [(''k'', JStr ''v'')]\<rparr>) =
     Inr (ended_page (init\<lparr>userData := JObj [(''k'', JStr ''v'')]\<rparr>))
   \<and> userData (step (OptionClick 0 0) (ended_page (init\<lparr>userData := JObj [(''k'', JStr ''v'')]\<rparr>))) =
       JObj [(''state'', JNull)]
   \<and> \<not> is_restart_click (SendClick ''x'') init
   \<and> userData (step (SendClick ''x'') init) = userData init"
proof -
  have a: "\<not> is_restart_click (SendClick ''x'') init"
    by (simp add: is_restart_click_def)
  have b: "\<forall>k d. SendClick ''x'' \<noteq> JsonSettled k (JsonValue d)"
    by simp
  from conversation_end_and_restart [of JNull "init\<lparr>userData := JObj [(''k'', JStr ''v'')]\<rparr>" "''x''"]
  have c: "userData (step (SendClick ''x'') init) = userData init"
    using a b by blast
  show ?thesis
    using conversation_end_and_restart [of JNull "init\<lparr>userData := JObj [(''k'', JStr ''v'')]\<rparr>" "''x''"] a c
    by (simp add: init_def initial_userData_def)
qed

text \<open>
  C8. The page's first call sends the sentinel \<^verbatim>\<open>Hello\<close>. However that call ends
  (rejected, error status, unreadable body, any parsed body), the transcript holds no user
  message afterwards. When the body's reply is a string and the dispatcher returns
  normally, the transcript begins with the welcome banner followed by the reply (the
  loading notice is removed) and holds no other bot message: the reply is the first
  message of the conversation.
\<close>

theorem bootstrap_request_not_echoed:
  "map req_message (pending (step Load init)) = [JStr ''Hello'']
   \<and> (\<forall>t. UserMessage t \<notin> set (chatMessages (run [Load, FetchSettled 0 fr, JsonSettled 0 jr] init)))
   \<and> (js_get body ''response'' = Inr (JStr r)
        \<and> handleAction (field body ''action'') (field body ''data'') s = Inr s' \<longrightarrow>
      take 2 (chatMessages (run [Load, FetchSettled 0 (FetchResponse True status),
                                  JsonSettled 0 (JsonValue body)] init)) =
        [BotMessage welcomeMsg, BotMessage r]
      \<and> filter is_bot_message
          (chatMessages (run [Load, FetchSettled 0 (FetchResponse True status),
                              JsonSettled 0 (JsonValue body)] init)) =
        [BotMessage welcomeMsg, BotMessage r])"
proof -
  have a: "map req_message (pending (step Load init)) = [JStr ''Hello'']"
    by (simp add: initChat_init)
  have "\<forall>t. UserMessage t \<notin> set (chatMessages (step Load init))"
    by (simp add: initChat_init)
  then have "\<forall>t. UserMessage t \<notin>
      set (chatMessages (settle_json 0 jr (settle_fetch 0 fr (step Load init))))"
    by (intro no_user_settle_json no_user_settle_fetch)
  then have b: "\<forall>t. UserMessage t \<notin>
      set (chatMessages (run [Load, FetchSettled 0 fr, JsonSettled 0 jr] init))"
    by simp
  have c: "take 2 (chatMessages (run [Load, FetchSettled 0 (FetchResponse True status),
                                  JsonSettled 0 (JsonValue body)] init)) =
        [BotMessage welcomeMsg, BotMessage r]
      \<and> filter is_bot_message
          (chatMessages (run [Load, FetchSettled 0 (FetchResponse True status),
                              JsonSettled 0 (JsonValue body)] init)) =
        [BotMessage welcomeMsg, BotMessage r]"
    if h: "js_get body ''response'' = Inr (JStr r)"
      "handleAction (field body ''action'') (field body ''data'') s = Inr s'"
  proof -
    obtain ns where ns: "chatMessages (run [Load, FetchSettled 0 (FetchResponse True status),
          JsonSettled 0 (JsonValue body)] init) = [BotMessage welcomeMsg, BotMessage r] @ ns"
        "\<forall>n\<in>set ns. \<not> is_bot_message n"
      using bootstrap_parsed [OF h] by blast
    show ?thesis
      unfolding ns(1) using ns(2) by (simp add: filter_empty_conv)
  qed
  show ?thesis
    using a b c by blast
qed

theorem bootstrap_request_not_echoed_witness:
  "js_get (JObj [(''response'', JStr ''Hi''), (''action'', JStr ''offer_booking'')]) ''response'' =
     Inr (JStr ''Hi'')
   \<and> (\<exists>s'. handleAction (JStr ''offer_booking'') JUndefined init = Inr s')
   \<and> take 2 (chatMessages (run [Load, FetchSettled 0 (FetchResponse True ''200''),
        JsonSettled 0 (JsonValue (JObj [(''response'', JStr ''Hi''),
                                        (''action'', JStr ''offer_booking'')]))] init)) =
       [BotMessage welcomeMsg, BotMessage ''Hi'']"
proof -
  have h1: "js_get (JObj [(''response'', JStr ''Hi''), (''action'', JStr ''offer_booking'')])
      ''response'' = Inr (JStr ''Hi'')"
    by (simp add: js_get_def)
  obtain s' where h2: "handleAction
      (field (JObj [(''response'', JStr ''Hi''), (''action'', JStr ''offer_booking'')]) ''action'')
      (field (JObj [(''response'', JStr ''Hi''), (''action'', JStr ''offer_booking'')]) ''data'')
      init = Inr s'"
    by (simp add: handleAction_def yes_no_def make_button_literal)
  have h3: "\<exists>s'. handleAction (JStr ''offer_booking'') JUndefined init = Inr s'"
    using h2 by simp
  show ?thesis
    using h1 h3 bootstrap_request_not_echoed
      [of "FetchRejected (Exn [] [])" "JsonRejected (Exn [] [])"
        "JObj [(''response'', JStr ''Hi''), (''action'', JStr ''offer_booking'')]" "''Hi''"
        init s' "''200''"] h2
    by blast
qed

text \<open>
  C9. A turn's message is echoed to the transcript as a user message exactly when it
  differs from \<^verbatim>\<open>"Hello"\<close>. After \<^verbatim>\<open>sendMessage\<close> has run up to its
  \<^verbatim>\<open>fetch\<close>, the transcript is the old one (option buttons disabled), followed by the
  echo unless the message is \<^verbatim>\<open>"Hello"\<close>, followed by the typing indicator. The
  same holds when the user types \<^verbatim>\<open>Hello\<close> and clicks send or presses Enter with
  the controls enabled: nothing is echoed.
\<close>

theorem user_echo_iff_not_Hello:
  "chatMessages (sendMessage (JStr m) s) =
     map disable_node (chatMessages s) @ (if m = ''Hello'' then [] else [UserMessage m])
       @ [TypingIndicator (next_id s)]
   \<and> chatMessages (step (SendClick ''Hello'') (s\<lparr>sendButton_disabled := False\<rparr>)) =
       map disable_node (chatMessages s) @ [TypingIndicator (next_id s)]
   \<and> chatMessages (step (EnterKey ''Hello'') (s\<lparr>userInput_disabled := False\<rparr>)) =
       map disable_node (chatMessages s) @ [TypingIndicator (next_id s)]"
  by (simp add: sendMessage_def sendMessage_begin_def)

theorem user_echo_iff_not_Hello_witness:
  "chatMessages (sendMessage (JStr ''Hello'') init) = [TypingIndicator 0]
   \<and> chatMessages (sendMessage (JStr ''hi'') init) = [UserMessage ''hi'', TypingIndicator 0]
   \<and> chatMessages (step (SendClick ''Hello'') init) = [TypingIndicator 0]"
  using user_echo_iff_not_Hello [of "''Hello''" init] user_echo_iff_not_Hello [of "''hi''" init]
  by (simp add: init_def)

text \<open>
  C10. The click on the restart button runs the option listener first: it calls
  \<^verbatim>\<open>sendMessage("Hello")\<close>, whose request carries the session state of that moment.
  The restart listener runs second and only then assigns \<^verbatim>\<open>{state: null}\<close>. So the
  call put in flight by the click carries the state from before the reset, while the
  variable holds the reset value.
\<close>

theorem restart_request_carries_old_state:
  assumes "handleAction (JStr ''conversation_end'') data s = Inr s1"
  shows "pending (step (OptionClick (length (chatMessages s)) 0) s1) =
           pending s @ [\<lparr>req_id = next_id s, req_message = JStr ''Hello'',
                          req_user_data = userData s, req_stage = AwaitFetch,
                          req_bootstrap = False\<rparr>]
         \<and> userData (step (OptionClick (length (chatMessages s)) 0) s1) = JObj [(''state'', JNull)]"
proof -
  have s1: "s1 = ended_page s"
    using assms by (simp add: handleAction_conversation_end)
  show ?thesis
    unfolding s1 restart_click_listeners
    by (simp add: option_value_def restart_entry_def js_get_def js_or_def sendMessage_def
        sendMessage_begin_def select_button_def ended_page_def)
qed

theorem restart_request_carries_old_state_witness:
  "handleAction (JStr ''conversation_end'') JNull (init\<lparr>userData := JObj [(''k'', JStr ''v'')]\<rparr>) =
     Inr (ended_page (init\<lparr>userData := JObj [(''k'', JStr ''v'')]\<rparr>))
   \<and> pending (step (OptionClick 0 0) (ended_page (init\<lparr>userData := JObj [(''k'', JStr ''v'')]\<rparr>))) =
       [\<lparr>req_id = 0, req_message = JStr ''Hello'', req_user_data = JObj [(''k'', JStr ''v'')],
         req_stage = AwaitFetch, req_bootstrap = False\<rparr>]
   \<and> userData (step (OptionClick 0 0) (ended_page (init\<lparr>userData := JObj [(''k'', JStr ''v'')]\<rparr>))) =
       JObj [(''state'', JNull)]"
proof -
  have h: "handleAction (JStr ''conversation_end'') JNull (init\<lparr>userData := JObj [(''k'', JStr ''v'')]\<rparr>) =
     Inr (ended_page (init\<lparr>userData := JObj [(''k'', JStr ''v'')]\<rparr>))"
    by (rule handleAction_conversation_end)
  show ?thesis
    using h restart_request_carries_old_state [OF h]
    by (simp add: init_def)
qed

end
